theory Spec2Isabelle
  imports Complex_Main "HOL-Library.Sublist"
begin

section \<open>Exceptions, log events and observable effects\<close>

text \<open>
  The forwarder \<^verbatim>\<open>scripts/mox-port-forward.py\<close> is effectful throughout: it runs
  subprocesses, opens sockets, reads and writes streams and logs. Each source function
  is embedded as a function from the answers of its environment to a result together
  with the list of effects it performed, in program order.

  Exceptions are values. Only three positions in Python's class hierarchy are ever
  tested by the source (\<^verbatim>\<open>except (ConnectionResetError, BrokenPipeError, OSError)\<close>,
  \<^verbatim>\<open>except Exception\<close>, and everything else), so an exception carries its class and the
  text that \<^verbatim>\<open>str(e)\<close> gives.
\<close>

datatype exn_class =
    ConnectionResetError | BrokenPipeError | ConnectionRefusedError | TimeoutError
  | FileNotFoundError | OSError
  | CalledProcessError | TimeoutExpired | JSONDecodeError | ValueError
  | IndexError | KeyError | TypeError | AttributeError | RuntimeError
  | CancelledError | KeyboardInterrupt

datatype exn = Exn exn_class string

fun exn_cls :: "exn \<Rightarrow> exn_class" where
  "exn_cls (Exn c m) = c"

fun exn_str :: "exn \<Rightarrow> string" where
  "exn_str (Exn c m) = m"

text \<open>\<^verbatim>\<open>isinstance(e, OSError)\<close>: the connection errors, the builtin timeout and the
  file errors are subclasses of \<^verbatim>\<open>OSError\<close>.\<close>

fun class_is_OSError :: "exn_class \<Rightarrow> bool" where
  "class_is_OSError ConnectionResetError = True"
| "class_is_OSError BrokenPipeError = True"
| "class_is_OSError ConnectionRefusedError = True"
| "class_is_OSError TimeoutError = True"
| "class_is_OSError FileNotFoundError = True"
| "class_is_OSError OSError = True"
| "class_is_OSError _ = False"

text \<open>\<^verbatim>\<open>isinstance(e, Exception)\<close>: all but the two that derive from
  \<^verbatim>\<open>BaseException\<close> directly.\<close>

fun class_is_Exception :: "exn_class \<Rightarrow> bool" where
  "class_is_Exception CancelledError = False"
| "class_is_Exception KeyboardInterrupt = False"
| "class_is_Exception _ = True"

definition is_OSError :: "exn \<Rightarrow> bool" where
  "is_OSError e = class_is_OSError (exn_cls e)"

definition is_Exception :: "exn \<Rightarrow> bool" where
  "is_Exception e = class_is_Exception (exn_cls e)"

datatype level = DEBUG | INFO | WARNING | ERROR

text \<open>The two connections a handler owns: the accepted one and the dialled one.\<close>

datatype conn = Client | Upstream

type_synonym bytes = "nat list"

text \<open>A JSON document as \<^verbatim>\<open>json.loads\<close> returns it; an object is a Python dict, kept
  as its items in iteration order (\<^verbatim>\<open>json.loads\<close> leaves one item a key).\<close>

datatype json =
    JNull | JBool bool | JInt int | JFloat real | JStr string
  | JArr "json list" | JObj "(string \<times> json) list"

datatype event =
    Log level string
  | CheckOutput "string list" nat
  | OpenConnection json int nat
  | Write conn bytes
  | Close conn
  | StartServer string int

text \<open>Text as the source builds it. \<^verbatim>\<open>str\<close> of an integer; the arrow and the dash
  of the log messages are carried as their UTF-8 bytes.\<close>

fun digits :: "nat \<Rightarrow> string" where
  "digits n =
     (if n < 10 then [''0123456789'' ! n]
      else digits (n div 10) @ [''0123456789'' ! (n mod 10)])"

declare digits.simps [simp del]

definition str_int :: "int \<Rightarrow> string" where
  "str_int i = (if i < 0 then CHR ''-'' # digits (nat (- i)) else digits (nat i))"

definition arrow :: string where
  "arrow = [CHR 0xE2, CHR 0x86, CHR 0x92]"

definition dash :: string where
  "dash = [CHR 0xE2, CHR 0x80, CHR 0x94]"

text \<open>What an awaited call does: it returns, it raises, or it never completes.\<close>

datatype 'a outcome = Returns 'a | Raises exn | Blocks

section \<open>The directional copy loop \<^verbatim>\<open>pipe\<close>\<close>

text \<open>
  \<^verbatim>\<open>
  async def pipe(reader, writer):
      try:
          while True:
              data = await reader.read(BUF_SIZE)
              if not data:
                  break
              writer.write(data)
              await writer.drain()
      except (ConnectionResetError, BrokenPipeError, OSError):
          pass
      finally:
          try:
              writer.close()
              await writer.wait_closed()
          except Exception:
              pass
  \<close>
  The reader is the list of outcomes of its successive \<^verbatim>\<open>read\<close> calls; a read past the
  end of the list never completes. The writer answers its \<open>k\<close>-th \<^verbatim>\<open>drain\<close> and its
  \<^verbatim>\<open>wait_closed\<close>. \<^verbatim>\<open>write\<close> and \<^verbatim>\<open>close\<close> only hand work to the transport and
  return. How many bytes a read returns, up to \<open>BUF_SIZE\<close>, is the reader's choice and
  nothing below depends on it.
\<close>

definition BUF_SIZE :: nat where
  "BUF_SIZE = 65536"

record writer =
  target :: conn
  drain :: "nat \<Rightarrow> unit outcome"
  wait_closed :: "unit outcome"

datatype loop_exit = Break | Raised exn | Stuck

fun pipe_loop :: "bytes outcome list \<Rightarrow> writer \<Rightarrow> nat \<Rightarrow> loop_exit \<times> event list" where
  "pipe_loop [] w k = (Stuck, [])"
| "pipe_loop (Blocks # rs) w k = (Stuck, [])"
| "pipe_loop (Raises e # rs) w k = (Raised e, [])"
| "pipe_loop (Returns d # rs) w k =
     (if d = [] then (Break, [])
      else (case drain w k of
              Returns u \<Rightarrow> (case pipe_loop rs w (Suc k) of (x, evs) \<Rightarrow> (x, Write (target w) d # evs))
            | Raises e \<Rightarrow> (Raised e, [Write (target w) d])
            | Blocks \<Rightarrow> (Stuck, [Write (target w) d])))"

datatype result = Done | Propagates exn | NeverReturns

text \<open>The \<^verbatim>\<open>finally\<close> block, given the exception in flight (if any): an exception of
  \<^verbatim>\<open>wait_closed\<close> that \<^verbatim>\<open>except Exception\<close> does not catch replaces it.\<close>

definition pipe_finally :: "writer \<Rightarrow> exn option \<Rightarrow> result \<times> event list" where
  "pipe_finally w pending =
     (case wait_closed w of
        Blocks \<Rightarrow> (NeverReturns, [Close (target w)])
      | Raises e \<Rightarrow>
          (if is_Exception e
           then ((case pending of None \<Rightarrow> Done | Some p \<Rightarrow> Propagates p), [Close (target w)])
           else (Propagates e, [Close (target w)]))
      | Returns u \<Rightarrow> ((case pending of None \<Rightarrow> Done | Some p \<Rightarrow> Propagates p), [Close (target w)]))"

definition pipe :: "bytes outcome list \<Rightarrow> writer \<Rightarrow> result \<times> event list" where
  "pipe reader w =
     (case pipe_loop reader w 0 of
        (Stuck, evs) \<Rightarrow> (NeverReturns, evs)
      | (Break, evs) \<Rightarrow> (case pipe_finally w None of (r, fin) \<Rightarrow> (r, evs @ fin))
      | (Raised e, evs) \<Rightarrow>
          (case pipe_finally w (if is_OSError e then None else Some e) of
             (r, fin) \<Rightarrow> (r, evs @ fin)))"

text \<open>What the \<^verbatim>\<open>except\<close> clause makes of the way the loop ended.\<close>

fun settle :: "loop_exit \<Rightarrow> loop_exit" where
  "settle (Raised e) = (if is_OSError e then Break else Raised e)"
| "settle x = x"

text \<open>The bytes handed to a connection, in order, and the data a reader delivers before
  its first empty read, exception or stall.\<close>

fun written :: "conn \<Rightarrow> event list \<Rightarrow> bytes" where
  "written c [] = []"
| "written c (Write c' d # evs) = (if c' = c then d @ written c evs else written c evs)"
| "written c (_ # evs) = written c evs"

fun delivered :: "bytes outcome list \<Rightarrow> bytes" where
  "delivered (Returns d # rs) = (if d = [] then [] else d @ delivered rs)"
| "delivered _ = []"

section \<open>The address resolver \<^verbatim>\<open>resolve_container_ip\<close>\<close>

text \<open>
  \<^verbatim>\<open>
  def resolve_container_ip() -> str | None:
      try:
          out = subprocess.check_output(
              ["docker", "ps", "-q", "-f", f"name={CONTAINER_PREFIX}"],
              text=True, timeout=5).strip()
          if not out:
              return None
          container_id = out.splitlines()[0]
          info = subprocess.check_output(
              ["docker", "inspect", container_id], text=True, timeout=5)
          data = json.loads(info)
          networks = data[0].get("NetworkSettings", {}).get("Networks", {})
          for net in networks.values():
              ip = net.get("IPAddress")
              if ip:
                  return ip
      except Exception as e:
          log.debug(f"resolve_container_ip error: {e}")
      return None
  \<close>
  The control plane is what the two subprocess calls answer; \<^verbatim>\<open>json.loads\<close> is the
  library's parser, taken as it is. Text is ASCII here: a byte beyond it is never
  whitespace and never ends a line.
\<close>

definition CONTAINER_PREFIX :: string where
  "CONTAINER_PREFIX = ''openclaw-sbx-agent-mox-''"

record control_plane =
  docker_ps :: "exn + string"
  docker_inspect :: "string \<Rightarrow> exn + string"
  json_loads :: "string \<Rightarrow> exn + json"

definition is_space :: "char \<Rightarrow> bool" where
  "is_space c = (c \<in> set [CHR 0x09, CHR 0x0A, CHR 0x0B, CHR 0x0C, CHR 0x0D,
                            CHR 0x1C, CHR 0x1D, CHR 0x1E, CHR 0x1F, CHR 0x20])"

definition is_linebreak :: "char \<Rightarrow> bool" where
  "is_linebreak c = (c \<in> set [CHR 0x0A, CHR 0x0B, CHR 0x0C, CHR 0x0D,
                                CHR 0x1C, CHR 0x1D, CHR 0x1E])"

definition strip :: "string \<Rightarrow> string" where
  "strip s = rev (dropWhile is_space (rev (dropWhile is_space s)))"

fun splitlines :: "string \<Rightarrow> string list" where
  "splitlines [] = []"
| "splitlines [c] = (if is_linebreak c then [[]] else [[c]])"
| "splitlines (c # d # cs) =
     (if c = CHR 0x0D \<and> d = CHR 0x0A then [] # splitlines cs
      else if is_linebreak c then [] # splitlines (d # cs)
      else (case splitlines (d # cs) of [] \<Rightarrow> [[c]] | l # ls \<Rightarrow> (c # l) # ls))"

fun type_name :: "json \<Rightarrow> string" where
  "type_name JNull = ''NoneType''"
| "type_name (JBool b) = ''bool''"
| "type_name (JInt n) = ''int''"
| "type_name (JFloat x) = ''float''"
| "type_name (JStr s) = ''str''"
| "type_name (JArr xs) = ''list''"
| "type_name (JObj kvs) = ''dict''"

definition no_attribute :: "json \<Rightarrow> string \<Rightarrow> exn" where
  "no_attribute v a =
     Exn AttributeError ([CHR 0x27] @ type_name v @ [CHR 0x27] @ '' object has no attribute ''
                          @ [CHR 0x27] @ a @ [CHR 0x27])"

text \<open>\<^verbatim>\<open>v[0]\<close>.\<close>

fun subscript0 :: "json \<Rightarrow> exn + json" where
  "subscript0 (JArr []) = Inl (Exn IndexError ''list index out of range'')"
| "subscript0 (JArr (x # xs)) = Inr x"
| "subscript0 (JObj kvs) = Inl (Exn KeyError ''0'')"
| "subscript0 (JStr []) = Inl (Exn IndexError ''string index out of range'')"
| "subscript0 (JStr (c # cs)) = Inr (JStr [c])"
| "subscript0 v =
     Inl (Exn TypeError ([CHR 0x27] @ type_name v @ [CHR 0x27] @ '' object is not subscriptable''))"

text \<open>\<^verbatim>\<open>v.get(key, default)\<close> and \<^verbatim>\<open>v.values()\<close>: methods of a dict only.\<close>

fun py_get :: "json \<Rightarrow> string \<Rightarrow> json \<Rightarrow> exn + json" where
  "py_get (JObj kvs) key dflt = Inr (case map_of kvs key of None \<Rightarrow> dflt | Some v \<Rightarrow> v)"
| "py_get v key dflt = Inl (no_attribute v ''get'')"

fun py_values :: "json \<Rightarrow> exn + json list" where
  "py_values (JObj kvs) = Inr (map snd kvs)"
| "py_values v = Inl (no_attribute v ''values'')"

text \<open>Truth value, as \<^verbatim>\<open>if ip:\<close> tests it.\<close>

fun truthy :: "json \<Rightarrow> bool" where
  "truthy JNull = False"
| "truthy (JBool b) = b"
| "truthy (JInt n) = (n \<noteq> 0)"
| "truthy (JFloat x) = (x \<noteq> 0)"
| "truthy (JStr s) = (s \<noteq> [])"
| "truthy (JArr xs) = (xs \<noteq> [])"
| "truthy (JObj kvs) = (kvs \<noteq> [])"

text \<open>The \<^verbatim>\<open>for net in networks.values()\<close> loop; falling off its end reaches the
  final \<^verbatim>\<open>return None\<close>.\<close>

fun scan_networks :: "json list \<Rightarrow> exn + json option" where
  "scan_networks [] = Inr None"
| "scan_networks (net # nets) =
     (case py_get net ''IPAddress'' JNull of
        Inl e \<Rightarrow> Inl e
      | Inr ip \<Rightarrow> if truthy ip then Inr (Some ip) else scan_networks nets)"

definition ps_argv :: "string list" where
  "ps_argv = [''docker'', ''ps'', ''-q'', ''-f'', ''name='' @ CONTAINER_PREFIX]"

definition inspect_argv :: "string \<Rightarrow> string list" where
  "inspect_argv container_id = [''docker'', ''inspect'', container_id]"

text \<open>From the descriptor text to the address: the statements after the second query.\<close>

definition extract_ip :: "control_plane \<Rightarrow> string \<Rightarrow> exn + json option" where
  "extract_ip cp info =
     (case json_loads cp info of
        Inl e \<Rightarrow> Inl e
      | Inr data \<Rightarrow>
     (case subscript0 data of
        Inl e \<Rightarrow> Inl e
      | Inr d0 \<Rightarrow>
     (case py_get d0 ''NetworkSettings'' (JObj []) of
        Inl e \<Rightarrow> Inl e
      | Inr ns \<Rightarrow>
     (case py_get ns ''Networks'' (JObj []) of
        Inl e \<Rightarrow> Inl e
      | Inr networks \<Rightarrow>
     (case py_values networks of
        Inl e \<Rightarrow> Inl e
      | Inr nets \<Rightarrow> scan_networks nets)))))"

text \<open>The body of the \<^verbatim>\<open>try\<close>: \<open>Inl\<close> is an exception raised inside it.\<close>

definition resolve_try :: "control_plane \<Rightarrow> (exn + json option) \<times> event list" where
  "resolve_try cp =
     (case docker_ps cp of
        Inl e \<Rightarrow> (Inl e, [CheckOutput ps_argv 5])
      | Inr raw \<Rightarrow>
          (let out = strip raw in
           if out = [] then (Inr None, [CheckOutput ps_argv 5])
           else (case splitlines out of
                   [] \<Rightarrow> (Inl (Exn IndexError ''list index out of range''), [CheckOutput ps_argv 5])
                 | container_id # others \<Rightarrow>
                     (case docker_inspect cp container_id of
                        Inl e \<Rightarrow>
                          (Inl e, [CheckOutput ps_argv 5, CheckOutput (inspect_argv container_id) 5])
                      | Inr info \<Rightarrow>
                          (extract_ip cp info,
                           [CheckOutput ps_argv 5, CheckOutput (inspect_argv container_id) 5])))))"

definition resolve_container_ip :: "control_plane \<Rightarrow> (exn + json option) \<times> event list" where
  "resolve_container_ip cp =
     (case resolve_try cp of
        (Inr r, evs) \<Rightarrow> (Inr r, evs)
      | (Inl e, evs) \<Rightarrow>
          (if is_Exception e
           then (Inr None, evs @ [Log DEBUG (''resolve_container_ip error: '' @ exn_str e)])
           else (Inl e, evs)))"

section \<open>The connection handler \<^verbatim>\<open>handle_connection\<close>\<close>

text \<open>
  \<^verbatim>\<open>
  async def handle_connection(client_reader, client_writer, port):
      peer = client_writer.get_extra_info("peername")
      ip = resolve_container_ip()
      if not ip:
          log.warning(f"[:{port}] {peer} -> no Mox container running, refusing")
          client_writer.close()
          return
      log.info(f"[:{port}] {peer} -> {ip}:{port}")
      try:
          upstream_reader, upstream_writer = await asyncio.wait_for(
              asyncio.open_connection(ip, port), timeout=5)
      except Exception as e:
          log.warning(f"[:{port}] {peer} -> connect to {ip}:{port} failed: {e}")
          client_writer.close()
          return
      await asyncio.gather(
          pipe(client_reader, upstream_writer),
          pipe(upstream_reader, client_writer))
      log.info(f"[:{port}] {peer} closed")
  \<close>
  (the source writes the arrow as one character). A stream is what its reads, drains and
  \<^verbatim>\<open>wait_closed\<close> answer. \<^verbatim>\<open>asyncio.gather\<close> runs the two copy loops as concurrent
  tasks: their effects interleave in an order the event loop chooses, given here as a
  list of choices, it returns once both have returned, and it raises the first exception
  either of them raises, without waiting for the other.
\<close>

record stream =
  reads :: "bytes outcome list"
  drains :: "nat \<Rightarrow> unit outcome"
  closing :: "unit outcome"

definition writer_of :: "conn \<Rightarrow> stream \<Rightarrow> writer" where
  "writer_of c s = \<lparr>target = c, drain = drains s, wait_closed = closing s\<rparr>"

record environment =
  control :: control_plane
  open_connection :: "json \<Rightarrow> int \<Rightarrow> exn + stream"
  str_of :: "json \<Rightarrow> string"
  schedule :: "bool list"
  left_first :: bool
  start_server :: "int \<Rightarrow> exn option"
  sigint :: bool
  unicode_space :: "nat \<Rightarrow> bool"
  unicode_decimal :: "nat \<Rightarrow> nat option"
  int_max_str_digits :: nat
  repr_of :: "nat list \<Rightarrow> string"

text \<open>\<^verbatim>\<open>{ip}\<close> in an f-string: a \<^verbatim>\<open>str\<close> is itself; the text of any other value is the
  library's.\<close>

definition fmt :: "environment \<Rightarrow> json \<Rightarrow> string" where
  "fmt env v = (case v of JStr s \<Rightarrow> s | _ \<Rightarrow> str_of env v)"

fun interleave :: "bool list \<Rightarrow> 'a list \<Rightarrow> 'a list \<Rightarrow> 'a list" where
  "interleave bs [] ys = ys"
| "interleave bs (x # xs) [] = x # xs"
| "interleave [] (x # xs) (y # ys) = x # xs @ y # ys"
| "interleave (b # bs) (x # xs) (y # ys) =
     (if b then x # interleave bs xs (y # ys) else y # interleave bs (x # xs) ys)"

fun gather :: "bool \<Rightarrow> result \<Rightarrow> result \<Rightarrow> result" where
  "gather first (Propagates e1) (Propagates e2) = Propagates (if first then e1 else e2)"
| "gather first (Propagates e1) r2 = Propagates e1"
| "gather first r1 (Propagates e2) = Propagates e2"
| "gather first Done Done = Done"
| "gather first r1 r2 = NeverReturns"

definition tag :: "int \<Rightarrow> string \<Rightarrow> string" where
  "tag port peer = ''[:'' @ str_int port @ ''] '' @ peer"

definition refusing_msg :: "int \<Rightarrow> string \<Rightarrow> string" where
  "refusing_msg port peer = tag port peer @ '' '' @ arrow @ '' no Mox container running, refusing''"

definition connecting_msg :: "int \<Rightarrow> string \<Rightarrow> string \<Rightarrow> string" where
  "connecting_msg port peer ip = tag port peer @ '' '' @ arrow @ '' '' @ ip @ '':'' @ str_int port"

definition failed_msg :: "int \<Rightarrow> string \<Rightarrow> string \<Rightarrow> exn \<Rightarrow> string" where
  "failed_msg port peer ip e =
     tag port peer @ '' '' @ arrow @ '' connect to '' @ ip @ '':'' @ str_int port
       @ '' failed: '' @ exn_str e"

definition closed_msg :: "int \<Rightarrow> string \<Rightarrow> string" where
  "closed_msg port peer = tag port peer @ '' closed''"

definition relay :: "environment \<Rightarrow> stream \<Rightarrow> stream \<Rightarrow> result \<times> event list" where
  "relay env client up =
     (case pipe (reads client) (writer_of Upstream up) of (r1, evs1) \<Rightarrow>
      case pipe (reads up) (writer_of Client client) of (r2, evs2) \<Rightarrow>
        (gather (left_first env) r1 r2, interleave (schedule env) evs1 evs2))"

definition refuse :: "int \<Rightarrow> string \<Rightarrow> event list" where
  "refuse port peer = [Log WARNING (refusing_msg port peer), Close Client]"

definition dial :: "environment \<Rightarrow> string \<Rightarrow> stream \<Rightarrow> int \<Rightarrow> json \<Rightarrow> result \<times> event list" where
  "dial env peer client port ip =
     (case open_connection env ip port of
        Inl e \<Rightarrow>
          (if is_Exception e
           then (Done, [Log INFO (connecting_msg port peer (fmt env ip)), OpenConnection ip port 5,
                        Log WARNING (failed_msg port peer (fmt env ip) e), Close Client])
           else (Propagates e,
                 [Log INFO (connecting_msg port peer (fmt env ip)), OpenConnection ip port 5]))
      | Inr up \<Rightarrow>
          (case relay env client up of
             (Done, evs) \<Rightarrow>
               (Done, [Log INFO (connecting_msg port peer (fmt env ip)), OpenConnection ip port 5]
                        @ evs @ [Log INFO (closed_msg port peer)])
           | (r, evs) \<Rightarrow>
               (r, [Log INFO (connecting_msg port peer (fmt env ip)), OpenConnection ip port 5]
                     @ evs)))"

definition handle_connection :: "environment \<Rightarrow> string \<Rightarrow> stream \<Rightarrow> int \<Rightarrow> result \<times> event list" where
  "handle_connection env peer client port =
     (case resolve_container_ip (control env) of
        (Inl e, evs) \<Rightarrow> (Propagates e, evs)
      | (Inr None, evs) \<Rightarrow> (Done, evs @ refuse port peer)
      | (Inr (Some ip), evs) \<Rightarrow>
          (if \<not> truthy ip then (Done, evs @ refuse port peer)
           else (case dial env peer client port ip of (r, devs) \<Rightarrow> (r, evs @ devs))))"

section \<open>The relay on the two connections it shares\<close>

text \<open>
  Each connection is one transport with a reader and a writer on it, and \<^verbatim>\<open>pipe\<close> ends
  with \<^verbatim>\<open>writer.close()\<close>, not with a half-close: \<^verbatim>\<open>StreamWriter.close\<close> closes the
  transport, the socket in both directions, and the transport then feeds end of stream to
  the reader of the same connection. So the two copy loops meet: the loop towards the
  backend closes the backend connection, from which the loop towards the client reads,
  and the other way round. Above, \<open>relay\<close> takes the outcomes of the reads as they come
  out; here they are derived from what each peer delivers (\<open>pending\<close>) and from whether
  the connection has been closed on this side (\<open>shut\<close>), in which case a read returns
  empty. (Data that had reached the reader before the close counts as read before it.)

  A loop takes turns. One turn is one pass through the \<^verbatim>\<open>while\<close> body of \<^verbatim>\<open>pipe\<close>: the
  read, then the write and the drain, or the way out through \<^verbatim>\<open>except\<close> and
  \<^verbatim>\<open>finally\<close>; a turn whose read has nothing to return yet changes nothing. The event
  loop chooses whose turn it is. \<open>gathered\<close> is what \<^verbatim>\<open>await asyncio.gather(...)\<close> has
  made of the two loops so far: \<open>None\<close> while it still waits.
\<close>

datatype direction = ToBackend | ToClient

fun source :: "direction \<Rightarrow> conn" where
  "source ToBackend = Client"
| "source ToClient = Upstream"

fun destination :: "direction \<Rightarrow> conn" where
  "destination ToBackend = Upstream"
| "destination ToClient = Client"

fun opposite :: "direction \<Rightarrow> direction" where
  "opposite ToBackend = ToClient"
| "opposite ToClient = ToBackend"

record link =
  pending :: "bytes outcome list"
  shut :: bool

datatype task = Copying nat | Ended result

definition next_read :: "link \<Rightarrow> (bytes outcome \<times> link) option" where
  "next_read src =
     (if shut src then Some (Returns [], src)
      else (case pending src of
              [] \<Rightarrow> None
            | Blocks # rs \<Rightarrow> None
            | x # rs \<Rightarrow> Some (x, src\<lparr>pending := rs\<rparr>)))"

definition leave :: "writer \<Rightarrow> exn option \<Rightarrow> event list \<Rightarrow> link \<Rightarrow> task \<times> link \<times> event list" where
  "leave w p evs src = (case pipe_finally w p of (r, fin) \<Rightarrow> (Ended r, src, evs @ fin))"

definition turn :: "writer \<Rightarrow> link \<Rightarrow> nat \<Rightarrow> (task \<times> link \<times> event list) option" where
  "turn w src k =
     (case next_read src of
        None \<Rightarrow> None
      | Some (Blocks, src') \<Rightarrow> None
      | Some (Raises e, src') \<Rightarrow> Some (leave w (if is_OSError e then None else Some e) [] src')
      | Some (Returns d, src') \<Rightarrow>
          (if d = [] then Some (leave w None [] src')
           else (case drain w k of
                   Returns u \<Rightarrow> Some (Copying (Suc k), src', [Write (target w) d])
                 | Raises e \<Rightarrow>
                     Some (leave w (if is_OSError e then None else Some e) [Write (target w) d] src')
                 | Blocks \<Rightarrow> Some (Ended NeverReturns, src', [Write (target w) d]))))"

record session =
  loop :: "direction \<Rightarrow> task"
  links :: "conn \<Rightarrow> link"
  effects :: "event list"

definition writer_for :: "stream \<Rightarrow> stream \<Rightarrow> direction \<Rightarrow> writer" where
  "writer_for client up d =
     (case d of ToBackend \<Rightarrow> writer_of Upstream up | ToClient \<Rightarrow> writer_of Client client)"

definition close_seen :: "conn \<Rightarrow> event list \<Rightarrow> link \<Rightarrow> link" where
  "close_seen c evs l = (if Close c \<in> set evs then l\<lparr>shut := True\<rparr> else l)"

definition advance :: "stream \<Rightarrow> stream \<Rightarrow> direction \<Rightarrow> session \<Rightarrow> session" where
  "advance client up d s =
     (case loop s d of
        Ended r \<Rightarrow> s
      | Copying k \<Rightarrow>
          (case turn (writer_for client up d) (links s (source d)) k of
             None \<Rightarrow> s
           | Some (t, src, evs) \<Rightarrow>
               \<lparr>loop = (loop s)(d := t),
                links = ((links s)(source d := src))
                          (destination d := close_seen (destination d) evs (links s (destination d))),
                effects = effects s @ evs\<rparr>))"

definition start :: "stream \<Rightarrow> stream \<Rightarrow> session" where
  "start client up =
     \<lparr>loop = (\<lambda>d. Copying 0),
      links = (\<lambda>c. case c of Client \<Rightarrow> \<lparr>pending = reads client, shut = False\<rparr>
                            | Upstream \<Rightarrow> \<lparr>pending = reads up, shut = False\<rparr>),
      effects = []\<rparr>"

fun run :: "stream \<Rightarrow> stream \<Rightarrow> direction list \<Rightarrow> session \<Rightarrow> session" where
  "run client up [] s = s"
| "run client up (d # ds) s = run client up ds (advance client up d s)"


definition in_flight :: "loop_exit \<Rightarrow> exn option" where
  "in_flight x = (case x of Raised e \<Rightarrow> if is_OSError e then None else Some e | _ \<Rightarrow> None)"

section \<open>Listeners and the process entry point\<close>

text \<open>
  \<^verbatim>\<open>
  async def start_forwarder(port):
      server = await asyncio.start_server(
          lambda r, w: handle_connection(r, w, port), host="0.0.0.0", port=port)
      log.info(f"Forwarding 0.0.0.0:{port} -> mox-container:{port}")
      async with server:
          await server.serve_forever()

  async def main(ports):
      log.info(f"Fraktalia Port Forwarder starting - ports: {ports}")
      ip = resolve_container_ip()
      if ip:
          log.info(f"Mox container found at {ip}")
      else:
          log.warning("No Mox container running (will resolve per-connection)")
      await asyncio.gather(*(start_forwarder(p) for p in ports))

  if __name__ == "__main__":
      ports = [int(p) for p in sys.argv[1:]] if len(sys.argv) > 1 else DEFAULT_PORTS
      for p in ports:
          if not (9000 <= p <= 9099):
              log.error(f"Port {p} outside Fraktalia range 9000-9099, aborting")
              sys.exit(1)
      try:
          asyncio.run(main(ports))
      except KeyboardInterrupt:
          log.info("Shutting down")
  \<close>
  A listener that binds serves for ever; the connections it accepts are handled by
  \<open>handle_connection\<close>, one call each.
\<close>

definition DEFAULT_PORTS :: "int list" where
  "DEFAULT_PORTS = [9000]"

fun commas :: "string list \<Rightarrow> string" where
  "commas [] = []"
| "commas [x] = x"
| "commas (x # y # ys) = x @ '', '' @ commas (y # ys)"

definition str_ports :: "int list \<Rightarrow> string" where
  "str_ports ps = ''['' @ commas (map str_int ps) @ '']''"

definition start_forwarder :: "environment \<Rightarrow> int \<Rightarrow> result \<times> event list" where
  "start_forwarder env port =
     (case start_server env port of
        Some e \<Rightarrow> (Propagates e, [StartServer ''0.0.0.0'' port])
      | None \<Rightarrow>
          (NeverReturns,
           [StartServer ''0.0.0.0'' port,
            Log INFO (''Forwarding 0.0.0.0:'' @ str_int port @ '' '' @ arrow
                        @ '' mox-container:'' @ str_int port)]))"

text \<open>\<^verbatim>\<open>gather\<close> over all the listeners: every one is started; the first failure, if
  any, is what \<^verbatim>\<open>main\<close> raises.\<close>

fun gather_all :: "result list \<Rightarrow> result" where
  "gather_all [] = Done"
| "gather_all (Propagates e # rs) = Propagates e"
| "gather_all (r # rs) =
     (case gather_all rs of Propagates e \<Rightarrow> Propagates e
      | Done \<Rightarrow> r
      | NeverReturns \<Rightarrow> NeverReturns)"

definition found_event :: "environment \<Rightarrow> json option \<Rightarrow> event" where
  "found_event env r =
     (case r of
        None \<Rightarrow> Log WARNING ''No Mox container running (will resolve per-connection)''
      | Some ip \<Rightarrow>
          if truthy ip then Log INFO (''Mox container found at '' @ fmt env ip)
          else Log WARNING ''No Mox container running (will resolve per-connection)'')"

definition main :: "environment \<Rightarrow> int list \<Rightarrow> result \<times> event list" where
  "main env ports =
     (case resolve_container_ip (control env) of
        (Inl e, evs) \<Rightarrow>
          (Propagates e,
           Log INFO (''Fraktalia Port Forwarder starting '' @ dash @ '' ports: '' @ str_ports ports)
             # evs)
      | (Inr r, evs) \<Rightarrow>
          (gather_all (map (\<lambda>p. fst (start_forwarder env p)) ports),
           Log INFO (''Fraktalia Port Forwarder starting '' @ dash @ '' ports: '' @ str_ports ports)
             # evs @ [found_event env r] @ concat (map (\<lambda>p. snd (start_forwarder env p)) ports)))"

text \<open>
  \<^verbatim>\<open>int(p)\<close> on an argument. An argument is a \<^verbatim>\<open>str\<close>, given by its code points.
  The interpreter first rewrites it: a code point below 127 stays, any other that is
  Unicode whitespace becomes a space and any other that is a Unicode decimal digit becomes
  its ASCII digit; then it reads, in base 10: ASCII whitespace (tab, line feed, vertical
  tab, form feed, carriage return, space), one optional sign, decimal digits with single
  underscores allowed between them, and whitespace again to the end. A digit run longer
  than the interpreter's limit (\<^verbatim>\<open>sys.get_int_max_str_digits()\<close>, 0 for none; it applies
  above 640 digits) is refused. Every failure is a \<^verbatim>\<open>ValueError\<close>. The Unicode
  database, the limit and \<^verbatim>\<open>repr\<close> belong to the interpreter and are taken from the
  environment.
\<close>

datatype sym = Space | Digit nat | Plus | Minus | Underscore | Other

definition classify :: "environment \<Rightarrow> nat \<Rightarrow> sym" where
  "classify env c =
     (if c < 127
      then (if c \<in> set [9, 10, 11, 12, 13, 32] then Space
            else if 48 \<le> c \<and> c \<le> 57 then Digit (c - 48)
            else if c = 43 then Plus
            else if c = 45 then Minus
            else if c = 95 then Underscore
            else Other)
      else if unicode_space env c then Space
      else (case unicode_decimal env c of
              None \<Rightarrow> Other
            | Some d \<Rightarrow> if d < 10 then Digit d else Other))"

fun in_run :: "sym \<Rightarrow> bool" where
  "in_run (Digit d) = True"
| "in_run Underscore = True"
| "in_run t = False"

text \<open>No underscore next to another and none at the end; none at the start either.\<close>

fun underscores_ok :: "sym list \<Rightarrow> bool" where
  "underscores_ok [] = True"
| "underscores_ok [t] = (t \<noteq> Underscore)"
| "underscores_ok (t # u # ts) = (\<not> (t = Underscore \<and> u = Underscore) \<and> underscores_ok (u # ts))"

definition well_formed :: "sym list \<Rightarrow> bool" where
  "well_formed toks =
     ((case toks of Underscore # ts \<Rightarrow> False | _ \<Rightarrow> True) \<and> underscores_ok toks)"

fun digit_values :: "sym list \<Rightarrow> nat list" where
  "digit_values [] = []"
| "digit_values (Digit d # ts) = d # digit_values ts"
| "digit_values (t # ts) = digit_values ts"

definition decimal_value :: "nat list \<Rightarrow> nat" where
  "decimal_value ds = foldl (\<lambda>acc d. 10 * acc + d) 0 ds"

definition invalid_literal :: "environment \<Rightarrow> nat list \<Rightarrow> exn" where
  "invalid_literal env a =
     Exn ValueError (''invalid literal for int() with base 10: '' @ repr_of env a)"

definition exceeds_limit :: "environment \<Rightarrow> nat \<Rightarrow> exn" where
  "exceeds_limit env n =
     Exn ValueError (''Exceeds the limit ('' @ str_int (int (int_max_str_digits env))
        @ '' digits) for integer string conversion: value has '' @ str_int (int n)
        @ '' digits; use sys.set_int_max_str_digits() to increase the limit'')"

definition unsign :: "sym list \<Rightarrow> bool \<times> sym list" where
  "unsign toks =
     (case toks of Minus # r \<Rightarrow> (True, r) | Plus # r \<Rightarrow> (False, r) | _ \<Rightarrow> (False, toks))"

definition py_int :: "environment \<Rightarrow> nat list \<Rightarrow> exn + int" where
  "py_int env a =
     (case unsign (dropWhile (\<lambda>t. t = Space) (map (classify env) a)) of
        (negative, body) \<Rightarrow>
          (let numeral = takeWhile in_run body;
               rest = dropWhile in_run body;
               ds = digit_values numeral
           in if \<not> well_formed numeral then Inl (invalid_literal env a)
              else if 640 < length ds \<and> 0 < int_max_str_digits env
                      \<and> int_max_str_digits env < length ds
              then Inl (exceeds_limit env (length ds))
              else if ds = [] then Inl (invalid_literal env a)
              else if \<not> list_all (\<lambda>t. t = Space) rest then Inl (invalid_literal env a)
              else Inr (if negative then - int (decimal_value ds) else int (decimal_value ds))))"

text \<open>An ASCII argument, written as a string.\<close>

definition ascii :: "string \<Rightarrow> nat list" where
  "ascii s = map of_char s"

text \<open>A decimal integer literal in the plain sense: an optional sign and one or more
  ASCII digits.\<close>

definition decimal_integer_literal :: "nat list \<Rightarrow> bool" where
  "decimal_integer_literal a =
     (case a of
        [] \<Rightarrow> False
      | c # cs \<Rightarrow>
          (if c = 43 \<or> c = 45 then cs \<noteq> [] \<and> list_all (\<lambda>d. 48 \<le> d \<and> d \<le> 57) cs
           else list_all (\<lambda>d. 48 \<le> d \<and> d \<le> 57) a))"

text \<open>The list comprehension: the first argument that does not convert raises, and no
  list is built.\<close>

fun convert_all :: "environment \<Rightarrow> nat list list \<Rightarrow> exn + int list" where
  "convert_all env [] = Inr []"
| "convert_all env (a # as) =
     (case py_int env a of
        Inl e \<Rightarrow> Inl e
      | Inr p \<Rightarrow> (case convert_all env as of Inl e \<Rightarrow> Inl e | Inr ps \<Rightarrow> Inr (p # ps)))"

definition in_range :: "int \<Rightarrow> bool" where
  "in_range p = (9000 \<le> p \<and> p \<le> 9099)"

datatype exit = Exit int | Uncaught exn | Serving

text \<open>The status the operating system sees: an uncaught exception ends the interpreter
  with status 1, and a process that serves has not exited.\<close>

fun exit_status :: "exit \<Rightarrow> int option" where
  "exit_status (Exit n) = Some n"
| "exit_status (Uncaught e) = Some 1"
| "exit_status Serving = None"

definition run_main :: "environment \<Rightarrow> int list \<Rightarrow> exit \<times> event list" where
  "run_main env ports =
     (case main env ports of
        (Propagates e, evs) \<Rightarrow>
          (if exn_cls e = KeyboardInterrupt then (Exit 0, evs @ [Log INFO ''Shutting down''])
           else (Uncaught e, evs))
      | (Done, evs) \<Rightarrow> (Exit 0, evs)
      | (NeverReturns, evs) \<Rightarrow>
          (if sigint env then (Exit 0, evs @ [Log INFO ''Shutting down'']) else (Serving, evs)))"

definition script :: "environment \<Rightarrow> nat list list \<Rightarrow> exit \<times> event list" where
  "script env args =
     (case (if args \<noteq> [] then convert_all env args else Inr DEFAULT_PORTS) of
        Inl e \<Rightarrow> (Uncaught e, [])
      | Inr ports \<Rightarrow>
          (case find (\<lambda>p. \<not> in_range p) ports of
             Some p \<Rightarrow>
               (Exit 1,
                [Log ERROR (''Port '' @ str_int p @ '' outside Fraktalia range 9000-9099, aborting'')])
           | None \<Rightarrow> run_main env ports))"

text \<open>Projections of a trace: the listeners started, the dials attempted and the
  subprocesses run.\<close>

fun is_StartServer :: "event \<Rightarrow> bool" where
  "is_StartServer (StartServer h p) = True"
| "is_StartServer _ = False"

fun is_OpenConnection :: "event \<Rightarrow> bool" where
  "is_OpenConnection (OpenConnection a p t) = True"
| "is_OpenConnection _ = False"

fun is_CheckOutput :: "event \<Rightarrow> bool" where
  "is_CheckOutput (CheckOutput argv t) = True"
| "is_CheckOutput _ = False"

fun is_Log :: "event \<Rightarrow> bool" where
  "is_Log (Log l m) = True"
| "is_Log _ = False"

text \<open>What \<^verbatim>\<open>docker ps -q\<close> prints for a list of instances, one identifier a line, and
  an attached network that reports no address: a dict whose \<^verbatim>\<open>IPAddress\<close> is missing or
  has no truth.\<close>

definition id_lines :: "string list \<Rightarrow> string" where
  "id_lines ids = concat (map (\<lambda>i. i @ [CHR 0x0A]) ids)"

fun no_address :: "json \<Rightarrow> bool" where
  "no_address (JObj kvs) = (case map_of kvs ''IPAddress'' of None \<Rightarrow> True | Some ip \<Rightarrow> \<not> truthy ip)"
| "no_address v = False"

section \<open>A sample environment\<close>

text \<open>One control plane with two running instances and a descriptor with three attached
  networks, one with none, and the streams of one connection; the concrete inputs at which
  the theorems below are instantiated.\<close>

definition sample_peer :: string where
  "sample_peer = [CHR 0x28, CHR 0x27] @ ''10.0.0.5'' @ [CHR 0x27] @ '', 51234)''"

definition sample_descriptor :: json where
  "sample_descriptor =
     JArr [JObj [(''Id'', JStr ''3f2a''),
                 (''NetworkSettings'',
                  JObj [(''Networks'',
                         JObj [(''none'', JObj [(''IPAddress'', JStr [])]),
                               (''bridge'', JObj [(''IPAddress'', JStr ''172.17.0.2'')]),
                               (''mox'', JObj [(''IPAddress'', JStr ''10.0.0.7'')])])])]]"

definition sample_control :: control_plane where
  "sample_control =
     \<lparr>docker_ps = Inr ''3f2a\<newline>77b0\<newline>'',
      docker_inspect = (\<lambda>container_id. Inr ''[{}]''),
      json_loads = (\<lambda>info. Inr sample_descriptor)\<rparr>"

definition absent_control :: control_plane where
  "absent_control =
     \<lparr>docker_ps = Inr [],
      docker_inspect = (\<lambda>container_id. Inl (Exn CalledProcessError ''exit status 1'')),
      json_loads = (\<lambda>info. Inl (Exn JSONDecodeError ''Expecting value''))\<rparr>"

definition sample_upstream :: stream where
  "sample_upstream =
     \<lparr>reads = [Returns [111, 107], Returns []], drains = (\<lambda>k. Returns ()), closing = Returns ()\<rparr>"

definition sample_client :: stream where
  "sample_client =
     \<lparr>reads = [Returns [104, 105], Returns [33], Returns []], drains = (\<lambda>k. Returns ()),
      closing = Returns ()\<rparr>"

definition sample_env :: environment where
  "sample_env =
     \<lparr>control = sample_control,
      open_connection = (\<lambda>ip port. Inr sample_upstream),
      str_of = (\<lambda>v. ''?''),
      schedule = [True, False],
      left_first = True,
      start_server = (\<lambda>port. None),
      sigint = False,
      unicode_space = (\<lambda>c. c \<in> set [0x85, 0xA0, 0x1680, 0x2028, 0x2029, 0x202F, 0x205F, 0x3000]
                             \<or> (0x2000 \<le> c \<and> c \<le> 0x200A)),
      unicode_decimal = (\<lambda>c. if 0x660 \<le> c \<and> c \<le> 0x669 then Some (c - 0x660) else None),
      int_max_str_digits = 4300,
      repr_of = (\<lambda>a. ''?'')\<rparr>"



definition absent_env :: environment where
  "absent_env = sample_env\<lparr>control := absent_control\<rparr>"

definition timeout_env :: environment where
  "timeout_env = sample_env\<lparr>open_connection := (\<lambda>ip port. Inl (Exn TimeoutError []))\<rparr>"

definition interrupted_control :: control_plane where
  "interrupted_control = absent_control\<lparr>docker_ps := Inl (Exn KeyboardInterrupt [])\<rparr>"

definition slow_control :: control_plane where
  "slow_control = absent_control\<lparr>docker_ps := Inl (Exn TimeoutExpired ''timed out after 5 seconds'')\<rparr>"

definition failing_inspect_control :: control_plane where
  "failing_inspect_control =
     sample_control\<lparr>docker_inspect := (\<lambda>container_id. Inl (Exn TimeoutExpired ''timed out after 5 seconds''))\<rparr>"

definition malformed_control :: control_plane where
  "malformed_control =
     sample_control\<lparr>json_loads := (\<lambda>info. Inl (Exn JSONDecodeError ''Expecting value: line 1 column 1 (char 0)''))\<rparr>"

definition empty_control :: control_plane where
  "empty_control = sample_control\<lparr>json_loads := (\<lambda>info. Inr (JArr []))\<rparr>"

definition unaddressed_control :: control_plane where
  "unaddressed_control =
     sample_control\<lparr>json_loads := (\<lambda>info.
        Inr (JArr [JObj [(''NetworkSettings'',
                          JObj [(''Networks'',
                                 JObj [(''none'', JObj [(''IPAddress'', JStr [])]),
                                       (''host'', JObj [])])])]]))\<rparr>"

definition cancelled_writer :: writer where
  "cancelled_writer =
     \<lparr>target = Upstream, drain = (\<lambda>k. Returns ()),
      wait_closed = Raises (Exn CancelledError [])\<rparr>"

definition broken_writer :: writer where
  "broken_writer =
     \<lparr>target = Upstream,
      drain = (\<lambda>k. if k < 1 then Returns () else Raises (Exn BrokenPipeError ''Broken pipe'')),
      wait_closed = Returns ()\<rparr>"

section \<open>Properties of the copy loop\<close>

lemma written_append: "written c (xs @ ys) = written c xs @ written c ys"
  by (induction c xs rule: written.induct) auto

lemma pipe_loop_prefix:
  "prefix (written (target w) (snd (pipe_loop rs w k))) (delivered rs)"
proof (induction rs w k rule: pipe_loop.induct)
  case (4 d rs w k)
  then show ?case by (auto split: outcome.splits prod.splits)
qed auto

lemma pipe_loop_complete:
  "(\<forall>k. drain w k = Returns ()) \<Longrightarrow>
   written (target w) (snd (pipe_loop rs w k)) = delivered rs"
proof (induction rs w k rule: pipe_loop.induct)
  case (4 d rs w k)
  then show ?case by (auto split: outcome.splits prod.splits)
qed auto

lemma pipe_loop_other:
  "c \<noteq> target w \<Longrightarrow> written c (snd (pipe_loop rs w k)) = []"
proof (induction rs w k rule: pipe_loop.induct)
  case (4 d rs w k)
  then show ?case by (auto split: outcome.splits prod.splits)
qed auto

lemma pipe_events:
  "\<exists>fin. snd (pipe rs w) = snd (pipe_loop rs w 0) @ fin \<and> (fin = [] \<or> fin = [Close (target w)])"
  by (auto simp: pipe_def pipe_finally_def
      split: prod.splits loop_exit.splits outcome.splits option.splits)

lemma written_pipe: "written c (snd (pipe rs w)) = written c (snd (pipe_loop rs w 0))"
  using pipe_events[of rs w] by (auto simp: written_append)

lemma pipe_settle:
  "settle (fst (pipe_loop r w 0)) = settle (fst (pipe_loop r' w 0)) \<Longrightarrow>
   snd (pipe_loop r w 0) = snd (pipe_loop r' w 0) \<Longrightarrow> pipe r w = pipe r' w"
  unfolding pipe_def
  by (cases "pipe_loop r w 0"; cases "pipe_loop r' w 0";
      cases "fst (pipe_loop r w 0)"; cases "fst (pipe_loop r' w 0)")
     (auto split: if_splits)

lemma read_error_as_eof:
  "is_OSError e \<Longrightarrow>
   settle (fst (pipe_loop (pre @ Raises e # rest) w k))
     = settle (fst (pipe_loop (pre @ Returns [] # rest') w k))
   \<and> snd (pipe_loop (pre @ Raises e # rest) w k)
     = snd (pipe_loop (pre @ Returns [] # rest') w k)"
proof (induction pre arbitrary: k)
  case Nil
  then show ?case by simp
next
  case (Cons a pre)
  show ?case
  proof (cases a)
    case (Returns d)
    with Cons.IH[OF Cons.prems, of "Suc k"] show ?thesis
      by (auto split: outcome.splits prod.splits)
  qed simp_all
qed

lemma no_oserror_propagates: "fst (pipe r w) = Propagates e \<Longrightarrow> \<not> is_OSError e"
  by (cases "exn_cls e")
     (auto simp: pipe_def pipe_finally_def is_OSError_def is_Exception_def
        split: prod.splits loop_exit.splits outcome.splits if_splits)

lemma pipe_close_last:
  "fst (pipe_loop r w 0) \<noteq> Stuck \<Longrightarrow>
   snd (pipe r w) = snd (pipe_loop r w 0) @ [Close (target w)]"
  by (auto simp: pipe_def pipe_finally_def split: prod.splits loop_exit.splits outcome.splits)

lemma pipe_loop_drain_error:
  "(\<forall>c\<in>set chunks. c \<noteq> []) \<Longrightarrow> d \<noteq> [] \<Longrightarrow>
   (\<forall>j<length chunks. drain w (k + j) = Returns ()) \<Longrightarrow>
   drain w (k + length chunks) = Raises e \<Longrightarrow>
   pipe_loop (map Returns chunks @ Returns d # rest) w k
     = (Raised e, map (Write (target w)) chunks @ [Write (target w) d])"
proof (induction chunks arbitrary: k)
  case Nil
  then show ?case by simp
next
  case (Cons c chunks)
  have c: "c \<noteq> []" and d0: "drain w k = Returns ()" using Cons.prems by auto
  have "\<forall>j<length chunks. drain w (Suc k + j) = Returns ()"
    using Cons.prems(3) by (metis add_Suc_shift length_Cons Suc_less_eq)
  moreover have "drain w (Suc k + length chunks) = Raises e" using Cons.prems(4) by simp
  ultimately have "pipe_loop (map Returns chunks @ Returns d # rest) w (Suc k)
     = (Raised e, map (Write (target w)) chunks @ [Write (target w) d])"
    using Cons.IH[of "Suc k"] Cons.prems(1,2) by simp
  then show ?case using c d0 by simp
qed

lemma pipe_drain_error:
  assumes "is_OSError e" "\<forall>c\<in>set chunks. c \<noteq> []" "d \<noteq> []"
    "\<forall>j<length chunks. drain w j = Returns ()" "drain w (length chunks) = Raises e"
  shows "pipe (map Returns chunks @ Returns d # rest) w
     = (fst (pipe_finally w None),
        map (Write (target w)) chunks @ [Write (target w) d, Close (target w)])"
proof -
  have l: "pipe_loop (map Returns chunks @ Returns d # rest) w 0
     = (Raised e, map (Write (target w)) chunks @ [Write (target w) d])"
    using pipe_loop_drain_error[of chunks d w 0 e rest] assms by simp
  have f: "snd (pipe_finally w None) = [Close (target w)]"
    by (simp add: pipe_finally_def split: outcome.splits)
  show ?thesis using assms(1) f
    by (cases "pipe_finally w None") (simp add: pipe_def l)
qed


text \<open>
  C6. In a copy loop a transport error is normal termination, and the destination is
  closed on every way out of the loop. Four facts, for every reader and writer.
  A read that raises an \<^verbatim>\<open>OSError\<close> (connection reset and broken pipe are subclasses)
  gives exactly the run that an empty read at the same place gives. A \<^verbatim>\<open>drain\<close> that
  raises an \<^verbatim>\<open>OSError\<close> ends the loop at once: the chunk just written is the last, the
  reads after it are never made, the destination is closed, and the result is that of an
  empty read. No exception that \<open>pipe\<close> lets through is an \<^verbatim>\<open>OSError\<close>, whether it
  came from a read, a drain or the close. And whenever the loop is left at all (end of
  stream, an exception of any class from \<^verbatim>\<open>read\<close> or \<^verbatim>\<open>drain\<close>), \<^verbatim>\<open>close\<close> is called
  on the destination, after the last write.
\<close>

theorem pipe_transport_error_is_termination:
  "(is_OSError e \<longrightarrow> pipe (pre @ Raises e # rest) w = pipe (pre @ Returns [] # rest') w)
   \<and> (is_OSError e'' \<and> (\<forall>c\<in>set chunks. c \<noteq> []) \<and> d \<noteq> []
        \<and> (\<forall>j<length chunks. drain w j = Returns ()) \<and> drain w (length chunks) = Raises e'' \<longrightarrow>
        pipe (map Returns chunks @ Returns d # unread) w
          = (fst (pipe_finally w None),
             map (Write (target w)) chunks @ [Write (target w) d, Close (target w)]))
   \<and> (fst (pipe r w) = Propagates e' \<longrightarrow> \<not> is_OSError e')
   \<and> (fst (pipe_loop r w 0) \<noteq> Stuck \<longrightarrow>
        snd (pipe r w) = snd (pipe_loop r w 0) @ [Close (target w)])"
proof (intro conjI impI)
  assume os: "is_OSError e"
  show "pipe (pre @ Raises e # rest) w = pipe (pre @ Returns [] # rest') w"
    using read_error_as_eof[OF os, of pre rest w 0 rest'] by (intro pipe_settle) simp_all
next
  assume "is_OSError e'' \<and> (\<forall>c\<in>set chunks. c \<noteq> []) \<and> d \<noteq> []
        \<and> (\<forall>j<length chunks. drain w j = Returns ()) \<and> drain w (length chunks) = Raises e''"
  then show "pipe (map Returns chunks @ Returns d # unread) w
          = (fst (pipe_finally w None),
             map (Write (target w)) chunks @ [Write (target w) d, Close (target w)])"
    using pipe_drain_error[of e'' chunks d w unread] by blast
next
  assume "fst (pipe r w) = Propagates e'"
  then show "\<not> is_OSError e'" by (rule no_oserror_propagates)
next
  assume "fst (pipe_loop r w 0) \<noteq> Stuck"
  then show "snd (pipe r w) = snd (pipe_loop r w 0) @ [Close (target w)]"
    by (rule pipe_close_last)
qed


theorem pipe_transport_error_is_termination_witness:
  "is_OSError (Exn BrokenPipeError ''Broken pipe'')
   \<and> drain broken_writer 0 = Returns ()
   \<and> drain broken_writer 1 = Raises (Exn BrokenPipeError ''Broken pipe'')
   \<and> pipe [Returns [104, 105], Returns [33], Returns [63], Returns []] broken_writer
       = (Done, [Write Upstream [104, 105], Write Upstream [33], Close Upstream])
   \<and> pipe [Returns [104, 105], Raises (Exn BrokenPipeError ''Broken pipe'')] cancelled_writer
       = pipe [Returns [104, 105], Returns []] cancelled_writer
   \<and> fst (pipe [Returns [104, 105], Raises (Exn BrokenPipeError ''Broken pipe'')] cancelled_writer)
       = Propagates (Exn CancelledError [])
   \<and> \<not> is_OSError (Exn CancelledError [])
   \<and> snd (pipe [Returns [104, 105], Raises (Exn BrokenPipeError ''Broken pipe'')] cancelled_writer)
       = [Write Upstream [104, 105], Close Upstream]"
proof -
  let ?e = "Exn BrokenPipeError ''Broken pipe''"
  let ?r = "[Returns [104, 105], Raises ?e]"
  have h: "is_OSError ?e \<and> (\<forall>c\<in>set [[104, 105]]. c \<noteq> []) \<and> [33] \<noteq> ([] :: bytes)
   \<and> (\<forall>j<length [[104, 105 :: nat]]. drain broken_writer j = Returns ())
   \<and> drain broken_writer (length [[104, 105 :: nat]]) = Raises ?e"
    by (simp add: is_OSError_def broken_writer_def)
  have f: "fst (pipe_finally broken_writer None) = Done" "target broken_writer = Upstream"
    by (simp_all add: pipe_finally_def broken_writer_def)
  have "pipe (map Returns [[104, 105]] @ Returns [33] # [Returns [63], Returns []]) broken_writer
          = (fst (pipe_finally broken_writer None),
             map (Write (target broken_writer)) [[104, 105]]
               @ [Write (target broken_writer) [33], Close (target broken_writer)])"
    by (rule pipe_transport_error_is_termination[THEN conjunct2, THEN conjunct1, THEN mp, OF h])
  with f have d: "pipe [Returns [104, 105], Returns [33], Returns [63], Returns []] broken_writer
       = (Done, [Write Upstream [104, 105], Write Upstream [33], Close Upstream])" by simp
  have os: "is_OSError ?e" using h by simp
  have a: "pipe ([Returns [104, 105]] @ Raises ?e # []) cancelled_writer
             = pipe ([Returns [104, 105]] @ Returns [] # []) cancelled_writer"
    by (rule pipe_transport_error_is_termination[THEN conjunct1, THEN mp, OF os])
  have pr: "fst (pipe ?r cancelled_writer) = Propagates (Exn CancelledError [])"
    by (simp add: pipe_def pipe_finally_def is_OSError_def is_Exception_def cancelled_writer_def)
  have b: "\<not> is_OSError (Exn CancelledError [])"
    by (rule pipe_transport_error_is_termination
               [THEN conjunct2, THEN conjunct2, THEN conjunct1, THEN mp, OF pr])
  have ns: "fst (pipe_loop ?r cancelled_writer 0) \<noteq> Stuck" by (simp add: cancelled_writer_def)
  have "snd (pipe ?r cancelled_writer)
          = snd (pipe_loop ?r cancelled_writer 0) @ [Close (target cancelled_writer)]"
    by (rule pipe_transport_error_is_termination
               [THEN conjunct2, THEN conjunct2, THEN conjunct2, THEN mp, OF ns])
  then have c: "snd (pipe ?r cancelled_writer) = [Write Upstream [104, 105], Close Upstream]"
    by (simp add: cancelled_writer_def)
  have k: "drain broken_writer 0 = Returns ()
           \<and> drain broken_writer 1 = Raises (Exn BrokenPipeError ''Broken pipe'')"
    by (simp add: broken_writer_def)
  from os k d a pr b c show ?thesis by simp
qed

section \<open>Properties of the relay and of the handler\<close>

lemma written_Cons: "written c (x # xs) = written c [x] @ written c xs"
  by (cases x) auto

lemma written_interleave_left:
  "written c ys = [] \<Longrightarrow> written c (interleave bs xs ys) = written c xs"
proof (induction bs xs ys rule: interleave.induct)
  case (3 x xs y ys)
  then show ?case using written_append[of c "x # xs" "y # ys"] by simp
next
  case (4 b bs x xs y ys)
  from 4(3) have y: "written c [y] = []" "written c ys = []"
    using written_Cons[of c y ys] by auto
  show ?case
  proof (cases b)
    case True
    with 4(1)[OF True 4(3)] show ?thesis using written_Cons[of c x "interleave bs xs (y # ys)"] written_Cons[of c x xs] by simp
  next
    case False
    with 4(2)[OF False y(2)] y show ?thesis using written_Cons[of c y "interleave bs (x # xs) ys"] by simp
  qed
qed auto

lemma written_interleave_right:
  "written c xs = [] \<Longrightarrow> written c (interleave bs xs ys) = written c ys"
proof (induction bs xs ys rule: interleave.induct)
  case (3 x xs y ys)
  then show ?case using written_append[of c "x # xs" "y # ys"] by simp
next
  case (4 b bs x xs y ys)
  from 4(3) have x: "written c [x] = []" "written c xs = []"
    using written_Cons[of c x xs] by auto
  show ?case
  proof (cases b)
    case True
    with 4(1)[OF True x(2)] x show ?thesis using written_Cons[of c x "interleave bs xs (y # ys)"] by simp
  next
    case False
    with 4(2)[OF False 4(3)] show ?thesis using written_Cons[of c y "interleave bs (x # xs) ys"] written_Cons[of c y ys] by simp
  qed
qed auto

lemma written_relay_up:
  "written Upstream (snd (relay env client up)) = written Upstream (snd (pipe_loop (reads client) (writer_of Upstream up) 0))"
proof -
  have "written Upstream (snd (pipe (reads up) (writer_of Client client))) = []"
    using pipe_loop_other[of Upstream "writer_of Client client" "reads up" 0]
    by (simp add: written_pipe writer_of_def)
  then show ?thesis
    by (simp add: relay_def split: prod.splits)
       (metis written_interleave_left written_pipe snd_conv)
qed

lemma written_relay_client:
  "written Client (snd (relay env client up)) = written Client (snd (pipe_loop (reads up) (writer_of Client client) 0))"
proof -
  have "written Client (snd (pipe (reads client) (writer_of Upstream up))) = []"
    using pipe_loop_other[of Client "writer_of Upstream up" "reads client" 0]
    by (simp add: written_pipe writer_of_def)
  then show ?thesis
    by (simp add: relay_def split: prod.splits)
       (metis written_interleave_right written_pipe snd_conv)
qed

lemma written_dial:
  "open_connection env ip port = Inr up \<Longrightarrow>
   written c (snd (dial env peer client port ip)) = written c (snd (relay env client up))"
  by (auto simp: dial_def written_append split: prod.splits result.splits)

lemma scan_truthy: "scan_networks nets = Inr (Some ip) \<Longrightarrow> truthy ip"
  by (induction nets) (auto split: sum.splits if_splits)

lemma resolve_try_truthy: "fst (resolve_try cp) = Inr (Some ip) \<Longrightarrow> truthy ip"
  by (auto simp: resolve_try_def extract_ip_def Let_def dest: scan_truthy split: sum.splits if_splits list.splits)

lemma resolve_truthy: "fst (resolve_container_ip cp) = Inr (Some ip) \<Longrightarrow> truthy ip"
  using resolve_try_truthy[of cp ip]
  by (auto simp: resolve_container_ip_def split: prod.splits sum.splits if_splits)

lemma written_resolve_try: "written c (snd (resolve_try cp)) = []"
  by (auto simp: resolve_try_def Let_def split: sum.splits list.splits)

lemma written_resolve: "written c (snd (resolve_container_ip cp)) = []"
  using written_resolve_try[of c cp]
  by (auto simp: resolve_container_ip_def written_append split: prod.splits sum.splits)

lemma filter_interleave:
  "filter P xs = [] \<Longrightarrow> filter P ys = [] \<Longrightarrow> filter P (interleave bs xs ys) = []"
  by (induction bs xs ys rule: interleave.induct) (auto split: if_splits)

lemma pipe_loop_no_dial: "filter is_OpenConnection (snd (pipe_loop rs w k)) = []"
proof (induction rs w k rule: pipe_loop.induct)
  case (4 d rs w k)
  then show ?case by (auto split: outcome.splits prod.splits)
qed auto

lemma pipe_no_dial: "filter is_OpenConnection (snd (pipe rs w)) = []"
  using pipe_events[of rs w] pipe_loop_no_dial[of rs w 0] by auto

lemma relay_no_dial: "filter is_OpenConnection (snd (relay env client up)) = []"
  by (simp add: relay_def split: prod.splits)
     (metis filter_interleave pipe_no_dial snd_conv)

lemma resolve_try_no_dial: "filter is_OpenConnection (snd (resolve_try cp)) = []"
  by (auto simp: resolve_try_def Let_def split: sum.splits list.splits)

lemma resolve_no_dial: "filter is_OpenConnection (snd (resolve_container_ip cp)) = []"
  using resolve_try_no_dial[of cp]
  by (auto simp: resolve_container_ip_def split: prod.splits sum.splits)

lemma dial_one: "filter is_OpenConnection (snd (dial env peer client port ip)) = [OpenConnection ip port 5]"
  using relay_no_dial
  by (auto simp: dial_def split: sum.splits prod.splits result.splits) (metis snd_conv)+


lemma strip_sample: "strip ''3f2a\<newline>77b0\<newline>'' = ''3f2a\<newline>77b0''"
  by (simp add: strip_def is_space_def)

lemma sample_resolve:
  "resolve_container_ip sample_control
     = (Inr (Some (JStr ''172.17.0.2'')),
        [CheckOutput ps_argv 5, CheckOutput (inspect_argv ''3f2a'') 5])"
  by (simp add: resolve_container_ip_def resolve_try_def sample_control_def strip_sample Let_def
        is_linebreak_def extract_ip_def sample_descriptor_def)

lemma absent_resolve:
  "resolve_container_ip absent_control = (Inr None, [CheckOutput ps_argv 5])"
  by (simp add: resolve_container_ip_def resolve_try_def absent_control_def strip_def Let_def)


text \<open>
  C1. In an established relay each direction copies what it reads, unmodified and in
  order. For a handler whose resolution gave an address and whose dial succeeded, under
  every interleaving of the two copy loops: the bytes handed to the backend connection are
  a prefix of the data the client's reads deliver before their first empty read, exception
  or stall, and they are all of it when the backend's drains return; the same holds, on
  its own, for the bytes handed to the client connection and the backend's reads.
\<close>

theorem relay_copies_bytes:
  assumes res: "fst (resolve_container_ip (control env)) = Inr (Some ip)"
    and conn: "open_connection env ip port = Inr up"
  shows "prefix (written Upstream (snd (handle_connection env peer client port))) (delivered (reads client))
     \<and> ((\<forall>k. drains up k = Returns ()) \<longrightarrow>
          written Upstream (snd (handle_connection env peer client port)) = delivered (reads client))
     \<and> prefix (written Client (snd (handle_connection env peer client port))) (delivered (reads up))
     \<and> ((\<forall>k. drains client k = Returns ()) \<longrightarrow>
          written Client (snd (handle_connection env peer client port)) = delivered (reads up))"
proof -
  have t: "truthy ip" using res by (rule resolve_truthy)
  have hc: "handle_connection env peer client port
           = (fst (dial env peer client port ip),
              snd (resolve_container_ip (control env)) @ snd (dial env peer client port ip))"
    using res t by (cases "resolve_container_ip (control env)")
      (simp add: handle_connection_def split: prod.splits)
  have h: "\<And>c. written c (snd (handle_connection env peer client port))
                = written c (snd (relay env client up))"
    by (simp add: hc written_append written_resolve written_dial[OF conn])
  have u: "written Upstream (snd (handle_connection env peer client port))
           = written (target (writer_of Upstream up)) (snd (pipe_loop (reads client) (writer_of Upstream up) 0))"
    by (simp add: h written_relay_up writer_of_def)
  have c: "written Client (snd (handle_connection env peer client port))
           = written (target (writer_of Client client)) (snd (pipe_loop (reads up) (writer_of Client client) 0))"
    by (simp add: h written_relay_client writer_of_def)
  have du: "(\<forall>k. drains up k = Returns ()) \<Longrightarrow> \<forall>k. drain (writer_of Upstream up) k = Returns ()"
    by (simp add: writer_of_def)
  have dc: "(\<forall>k. drains client k = Returns ()) \<Longrightarrow> \<forall>k. drain (writer_of Client client) k = Returns ()"
    by (simp add: writer_of_def)
  show ?thesis
    unfolding u c
    using pipe_loop_prefix pipe_loop_complete[OF du] pipe_loop_complete[OF dc] by blast
qed


theorem relay_copies_bytes_witness:
  "fst (resolve_container_ip (control sample_env)) = Inr (Some (JStr ''172.17.0.2''))
   \<and> open_connection sample_env (JStr ''172.17.0.2'') 9000 = Inr sample_upstream
   \<and> (\<forall>k. drains sample_upstream k = Returns ())
   \<and> (\<forall>k. drains sample_client k = Returns ())
   \<and> written Upstream (snd (handle_connection sample_env sample_peer sample_client 9000))
       = [104, 105, 33]
   \<and> written Client (snd (handle_connection sample_env sample_peer sample_client 9000))
       = [111, 107]"
proof -
  have r: "fst (resolve_container_ip (control sample_env)) = Inr (Some (JStr ''172.17.0.2''))"
    by (simp add: sample_env_def sample_resolve)
  have c: "open_connection sample_env (JStr ''172.17.0.2'') 9000 = Inr sample_upstream"
    by (simp add: sample_env_def)
  have du: "\<forall>k. drains sample_upstream k = Returns ()" by (simp add: sample_upstream_def)
  have dc: "\<forall>k. drains sample_client k = Returns ()" by (simp add: sample_client_def)
  have rc: "delivered (reads sample_client) = [104, 105, 33]" by (simp add: sample_client_def)
  have ru: "delivered (reads sample_upstream) = [111, 107]" by (simp add: sample_upstream_def)
  from relay_copies_bytes[OF r c, of sample_peer sample_client] du dc rc ru r c
  show ?thesis by simp
qed

text \<open>
  C4. When resolution yields absent, the handler returns after exactly two effects of its
  own, in this order: a warning whose text carries the listening port and the client's
  peer address, and \<^verbatim>\<open>close\<close> on the inbound connection. Its whole trace has no
  outbound dial.
\<close>

theorem refuses_without_dialling:
  assumes res: "fst (resolve_container_ip (control env)) = Inr None"
  shows "handle_connection env peer client port
           = (Done, snd (resolve_container_ip (control env))
                    @ [Log WARNING (''[:'' @ str_int port @ ''] '' @ peer @ '' '' @ arrow
                                      @ '' no Mox container running, refusing''),
                       Close Client])
     \<and> filter is_OpenConnection (snd (handle_connection env peer client port)) = []"
proof -
  have a: "handle_connection env peer client port
           = (Done, snd (resolve_container_ip (control env))
                    @ [Log WARNING (''[:'' @ str_int port @ ''] '' @ peer @ '' '' @ arrow
                                      @ '' no Mox container running, refusing''),
                       Close Client])"
    using res by (cases "resolve_container_ip (control env)")
      (simp add: handle_connection_def refuse_def refusing_msg_def tag_def)
  show ?thesis unfolding a using a resolve_no_dial[of "control env"] by simp
qed


theorem refuses_without_dialling_witness:
  "fst (resolve_container_ip (control absent_env)) = Inr None
   \<and> handle_connection absent_env sample_peer sample_client 9000
       = (Done, [CheckOutput ps_argv 5,
                 Log WARNING (''[:'' @ str_int 9000 @ ''] '' @ sample_peer @ '' '' @ arrow
                                @ '' no Mox container running, refusing''),
                 Close Client])"
proof -
  have r: "fst (resolve_container_ip (control absent_env)) = Inr None"
    by (simp add: absent_env_def absent_resolve)
  have s: "snd (resolve_container_ip (control absent_env)) = [CheckOutput ps_argv 5]"
    by (simp add: absent_env_def absent_resolve)
  from refuses_without_dialling[OF r, of sample_peer sample_client 9000] r s
  show ?thesis by simp
qed

text \<open>
  C5. After a successful resolution the handler dials exactly once: the resolved address,
  the port it was given (the listener's), under \<^verbatim>\<open>wait_for\<close> with a timeout of 5. When
  the dial raises an exception of any class under \<^verbatim>\<open>Exception\<close> (the timeout and a
  refused connection alike: the class does not occur in the outcome), the handler logs a
  warning with the address, the port and the text of the exception, closes the inbound
  connection and returns.
\<close>

theorem dials_same_port_with_timeout:
  assumes res: "fst (resolve_container_ip (control env)) = Inr (Some ip)"
  shows "filter is_OpenConnection (snd (handle_connection env peer client port))
           = [OpenConnection ip port 5]
     \<and> (open_connection env ip port = Inl (Exn c m) \<and> class_is_Exception c \<longrightarrow>
          handle_connection env peer client port
            = (Done, snd (resolve_container_ip (control env))
                     @ [Log INFO (''[:'' @ str_int port @ ''] '' @ peer @ '' '' @ arrow @ '' ''
                                    @ fmt env ip @ '':'' @ str_int port),
                        OpenConnection ip port 5,
                        Log WARNING (''[:'' @ str_int port @ ''] '' @ peer @ '' '' @ arrow
                                       @ '' connect to '' @ fmt env ip @ '':'' @ str_int port
                                       @ '' failed: '' @ m),
                        Close Client]))"
proof -
  have t: "truthy ip" using res by (rule resolve_truthy)
  have h: "handle_connection env peer client port
           = (fst (dial env peer client port ip), snd (resolve_container_ip (control env)) @ snd (dial env peer client port ip))"
    using res t by (cases "resolve_container_ip (control env)")
      (simp add: handle_connection_def split: prod.splits)
  show ?thesis
    unfolding h
    using resolve_no_dial[of "control env"] dial_one[of env peer client port ip]
    by (auto simp: dial_def is_Exception_def connecting_msg_def failed_msg_def tag_def)
qed

theorem dials_same_port_with_timeout_witness:
  "fst (resolve_container_ip (control timeout_env)) = Inr (Some (JStr ''172.17.0.2''))
   \<and> open_connection timeout_env (JStr ''172.17.0.2'') 9000 = Inl (Exn TimeoutError [])
   \<and> class_is_Exception TimeoutError
   \<and> filter is_OpenConnection (snd (handle_connection timeout_env sample_peer sample_client 9000))
       = [OpenConnection (JStr ''172.17.0.2'') 9000 5]
   \<and> handle_connection timeout_env sample_peer sample_client 9000
       = (Done, [CheckOutput ps_argv 5, CheckOutput (inspect_argv ''3f2a'') 5,
                 Log INFO (''[:'' @ str_int 9000 @ ''] '' @ sample_peer @ '' '' @ arrow @ '' ''
                             @ ''172.17.0.2'' @ '':'' @ str_int 9000),
                 OpenConnection (JStr ''172.17.0.2'') 9000 5,
                 Log WARNING (''[:'' @ str_int 9000 @ ''] '' @ sample_peer @ '' '' @ arrow
                                @ '' connect to '' @ ''172.17.0.2'' @ '':'' @ str_int 9000
                                @ '' failed: '' @ []),
                 Close Client])"
proof -
  have r: "fst (resolve_container_ip (control timeout_env)) = Inr (Some (JStr ''172.17.0.2''))"
    by (simp add: timeout_env_def sample_env_def sample_resolve)
  have s: "snd (resolve_container_ip (control timeout_env))
           = [CheckOutput ps_argv 5, CheckOutput (inspect_argv ''3f2a'') 5]"
    by (simp add: timeout_env_def sample_env_def sample_resolve)
  have c: "open_connection timeout_env (JStr ''172.17.0.2'') 9000 = Inl (Exn TimeoutError [])"
    by (simp add: timeout_env_def sample_env_def)
  have f: "fmt timeout_env (JStr ''172.17.0.2'') = ''172.17.0.2''" by (simp add: fmt_def)
  from dials_same_port_with_timeout
         [OF r, of sample_peer sample_client 9000 TimeoutError "[]"] r s c f
  show ?thesis by simp
qed

section \<open>Properties of the relay on shared connections\<close>



lemma finally_events: "snd (pipe_finally w p) = [Close (target w)]"
  by (simp add: pipe_finally_def split: outcome.splits)

lemma target_writer_for: "target (writer_for client up d) = destination d"
  by (cases d) (simp_all add: writer_for_def writer_of_def)

lemma source_destination: "source d \<noteq> destination d" "opposite d \<noteq> d"
  by (cases d; simp)+








lemma pipe_by_loop:
  "fst (pipe_loop rs w 0) \<noteq> Stuck \<Longrightarrow>
   pipe rs w = (fst (pipe_finally w (in_flight (fst (pipe_loop rs w 0)))),
                snd (pipe_loop rs w 0) @ [Close (target w)])"
  by (cases "pipe_loop rs w 0"; cases "fst (pipe_loop rs w 0)")
     (auto simp: pipe_def in_flight_def split: prod.splits, (metis finally_events snd_conv)+)

lemma run_append: "run client up (xs @ ys) s = run client up ys (run client up xs s)"
  by (induction xs arbitrary: s) simp_all

lemma advance_leave:
  assumes "loop s d = Copying k"
    "turn (writer_for client up d) (links s (source d)) k
       = Some (leave (writer_for client up d) p evs src)"
  shows "loop (advance client up d s) d = Ended (fst (pipe_finally (writer_for client up d) p))"
    and "effects (advance client up d s) = effects s @ evs @ [Close (destination d)]"
  using assms finally_events[of "writer_for client up d" p]
  by (cases "pipe_finally (writer_for client up d) p";
      simp add: advance_def leave_def target_writer_for)+

lemma solo_run:
  assumes "loop s d = Copying k" "\<not> shut (links s (source d))"
    "pending (links s (source d)) = rs"
    "fst (pipe_loop rs (writer_for client up d) k) \<noteq> Stuck"
  shows "\<exists>n. loop (run client up (replicate n d) s) d
               = Ended (fst (pipe_finally (writer_for client up d)
                               (in_flight (fst (pipe_loop rs (writer_for client up d) k)))))
            \<and> effects (run client up (replicate n d) s)
               = effects s @ snd (pipe_loop rs (writer_for client up d) k) @ [Close (destination d)]"
  using assms
proof (induction rs arbitrary: s k)
  case Nil
  then show ?case by simp
next
  case (Cons r rs)
  let ?w = "writer_for client up d"
  let ?src = "links s (source d)"
  show ?case
  proof (cases r)
    case Blocks
    with Cons.prems show ?thesis by simp
  next
    case (Raises e)
    have t: "turn ?w ?src k = Some (leave ?w (if is_OSError e then None else Some e) [] (?src\<lparr>pending := rs\<rparr>))"
      using Cons.prems Raises by (simp add: turn_def next_read_def)
    from advance_leave[OF Cons.prems(1) t] Raises
    have "loop (run client up (replicate 1 d) s) d
               = Ended (fst (pipe_finally ?w (in_flight (fst (pipe_loop (r # rs) ?w k)))))
            \<and> effects (run client up (replicate 1 d) s)
               = effects s @ snd (pipe_loop (r # rs) ?w k) @ [Close (destination d)]"
      by (simp add: in_flight_def)
    then show ?thesis by blast
  next
    case (Returns b)
    show ?thesis
    proof (cases "b = []")
      case True
      have t: "turn ?w ?src k = Some (leave ?w None [] (?src\<lparr>pending := rs\<rparr>))"
        using Cons.prems Returns True by (simp add: turn_def next_read_def)
      from advance_leave[OF Cons.prems(1) t] Returns True
      have "loop (run client up (replicate 1 d) s) d
               = Ended (fst (pipe_finally ?w (in_flight (fst (pipe_loop (r # rs) ?w k)))))
            \<and> effects (run client up (replicate 1 d) s)
               = effects s @ snd (pipe_loop (r # rs) ?w k) @ [Close (destination d)]"
        by (simp add: in_flight_def)
      then show ?thesis by blast
    next
      case False
      show ?thesis
      proof (cases "drain ?w k")
        case Blocks
        with Cons.prems Returns False show ?thesis by simp
      next
        case (Raises e)
        have t: "turn ?w ?src k
                   = Some (leave ?w (if is_OSError e then None else Some e)
                             [Write (target ?w) b] (?src\<lparr>pending := rs\<rparr>))"
          using Cons.prems Returns False Raises by (simp add: turn_def next_read_def)
        from advance_leave[OF Cons.prems(1) t] Returns False Raises
        have "loop (run client up (replicate 1 d) s) d
               = Ended (fst (pipe_finally ?w (in_flight (fst (pipe_loop (r # rs) ?w k)))))
            \<and> effects (run client up (replicate 1 d) s)
               = effects s @ snd (pipe_loop (r # rs) ?w k) @ [Close (destination d)]"
          by (simp add: in_flight_def)
        then show ?thesis by blast
      next
        case (Returns u)
        note dr = this
        let ?s1 = "advance client up d s"
        have t: "turn ?w ?src k = Some (Copying (Suc k), ?src\<lparr>pending := rs\<rparr>, [Write (target ?w) b])"
          using Cons.prems \<open>r = Returns b\<close> False dr by (simp add: turn_def next_read_def)
        have sd: "source d \<noteq> destination d" by (rule source_destination)
        have l1: "loop ?s1 d = Copying (Suc k)"
          using Cons.prems(1) t by (simp add: advance_def)
        have k1: "links ?s1 (source d) = ?src\<lparr>pending := rs\<rparr>"
          using Cons.prems(1) t sd by (simp add: advance_def)
        have e1: "effects ?s1 = effects s @ [Write (target ?w) b]"
          using Cons.prems(1) t by (simp add: advance_def)
        have p: "pipe_loop (r # rs) ?w k
                   = (fst (pipe_loop rs ?w (Suc k)), Write (target ?w) b # snd (pipe_loop rs ?w (Suc k)))"
          using \<open>r = Returns b\<close> False dr by (simp split: prod.splits)
        have ns: "fst (pipe_loop rs ?w (Suc k)) \<noteq> Stuck" using Cons.prems(4) p by simp
        have "\<not> shut (links ?s1 (source d))" "pending (links ?s1 (source d)) = rs"
          using k1 Cons.prems(2) by simp_all
        from Cons.IH[OF l1 this ns] obtain n where
          n: "loop (run client up (replicate n d) ?s1) d
                = Ended (fst (pipe_finally ?w (in_flight (fst (pipe_loop rs ?w (Suc k))))))"
             "effects (run client up (replicate n d) ?s1)
                = effects ?s1 @ snd (pipe_loop rs ?w (Suc k)) @ [Close (destination d)]"
          by blast
        have "loop (run client up (replicate (Suc n) d) s) d
               = Ended (fst (pipe_finally ?w (in_flight (fst (pipe_loop (r # rs) ?w k)))))
            \<and> effects (run client up (replicate (Suc n) d) s)
               = effects s @ snd (pipe_loop (r # rs) ?w k) @ [Close (destination d)]"
          using n e1 p by simp
        then show ?thesis by blast
      qed
    qed
  qed
qed

lemma alone_is_pipe:
  assumes "fst (pipe_loop (reads client) (writer_of Upstream up) 0) \<noteq> Stuck"
  shows "\<exists>n. loop (run client up (replicate n ToBackend) (start client up)) ToBackend
               = Ended (fst (pipe (reads client) (writer_of Upstream up)))
            \<and> effects (run client up (replicate n ToBackend) (start client up))
               = snd (pipe (reads client) (writer_of Upstream up))"
proof -
  have w: "writer_for client up ToBackend = writer_of Upstream up" by (simp add: writer_for_def)
  have "\<exists>n. loop (run client up (replicate n ToBackend) (start client up)) ToBackend
               = Ended (fst (pipe_finally (writer_for client up ToBackend)
                   (in_flight (fst (pipe_loop (reads client) (writer_for client up ToBackend) 0)))))
            \<and> effects (run client up (replicate n ToBackend) (start client up))
               = effects (start client up)
                 @ snd (pipe_loop (reads client) (writer_for client up ToBackend) 0)
                 @ [Close (destination ToBackend)]"
    by (rule solo_run) (simp_all add: start_def w assms)
  then show ?thesis
    using pipe_by_loop[OF assms] by (simp add: w start_def writer_of_def)
qed

lemma alone_is_pipe_back:
  assumes "fst (pipe_loop (reads up) (writer_of Client client) 0) \<noteq> Stuck"
  shows "\<exists>n. loop (run client up (replicate n ToClient) (start client up)) ToClient
               = Ended (fst (pipe (reads up) (writer_of Client client)))
            \<and> effects (run client up (replicate n ToClient) (start client up))
               = snd (pipe (reads up) (writer_of Client client))"
proof -
  have w: "writer_for client up ToClient = writer_of Client client" by (simp add: writer_for_def)
  have "\<exists>n. loop (run client up (replicate n ToClient) (start client up)) ToClient
               = Ended (fst (pipe_finally (writer_for client up ToClient)
                   (in_flight (fst (pipe_loop (reads up) (writer_for client up ToClient) 0)))))
            \<and> effects (run client up (replicate n ToClient) (start client up))
               = effects (start client up)
                 @ snd (pipe_loop (reads up) (writer_for client up ToClient) 0)
                 @ [Close (destination ToClient)]"
    by (rule solo_run) (simp_all add: start_def w assms)
  then show ?thesis
    using pipe_by_loop[OF assms] by (simp add: w start_def writer_of_def)
qed







section \<open>Properties of the resolver\<close>

lemma linebreak_space: "is_linebreak c \<Longrightarrow> is_space c"
  by (auto simp: is_linebreak_def is_space_def)

lemma splitlines_newline: "\<exists>ls. splitlines (CHR 0x0A # t) = [] # ls"
  by (cases t) (auto simp: is_linebreak_def)

lemma splitlines_first:
  "a \<noteq> [] \<Longrightarrow> \<forall>c\<in>set a. \<not> is_linebreak c \<Longrightarrow> t = [] \<or> hd t = CHR 0x0A \<Longrightarrow>
   \<exists>ls. splitlines (a @ t) = a # ls"
proof (induction a rule: list_nonempty_induct)
  case (single c)
  have nl: "\<not> is_linebreak c" using single by simp
  then have ncr: "c \<noteq> CHR 0x0D" by (auto simp: is_linebreak_def)
  show ?case
  proof (cases t)
    case Nil
    then show ?thesis using nl by simp
  next
    case (Cons d t')
    with single have d: "d = CHR 0x0A" by simp
    obtain ls where "splitlines (CHR 0x0A # t') = [] # ls" using splitlines_newline by blast
    then show ?thesis using Cons d nl ncr by simp
  qed
next
  case (cons c a)
  have nl: "\<not> is_linebreak c" using cons by simp
  then have ncr: "c \<noteq> CHR 0x0D" by (auto simp: is_linebreak_def)
  from cons obtain ls where ih: "splitlines (a @ t) = a # ls" by auto
  obtain d a' where a: "a = d # a'" using cons(1) by (cases a) auto
  show ?case using ih nl ncr unfolding a by simp
qed

lemma strip_first:
  assumes "cid \<noteq> []" "\<forall>c\<in>set cid. \<not> is_space c"
  shows "\<exists>t. strip (cid @ CHR 0x0A # rest) = cid @ t \<and> (t = [] \<or> hd t = CHR 0x0A)"
proof -
  let ?z = "CHR 0x0A # rest"
  obtain c cs where cid: "cid = c # cs" using assms(1) by (cases cid) auto
  have l: "dropWhile is_space (cid @ ?z) = cid @ ?z" using assms(2) cid by simp
  have hdr: "\<not> is_space (hd (rev cid))" using assms by (simp add: hd_rev)
  have r: "dropWhile is_space (rev ?z @ rev cid) = dropWhile is_space (rev ?z) @ rev cid"
  proof (cases "\<forall>x\<in>set (rev ?z). is_space x")
    case True
    then have "dropWhile is_space (rev ?z) = []" by simp
    moreover have "dropWhile is_space (rev cid) = rev cid"
      using hdr assms(1) by (cases "rev cid") auto
    ultimately show ?thesis using True by (simp add: dropWhile_append)
  next
    case False
    then show ?thesis by (metis dropWhile_append1)
  qed
  define t where "t = rev (dropWhile is_space (rev ?z))"
  have s: "strip (cid @ ?z) = cid @ t"
    unfolding strip_def l using r by (simp add: t_def)
  have "suffix (dropWhile is_space (rev ?z)) (rev ?z)" by (rule suffix_dropWhile)
  then have "prefix t ?z" unfolding t_def by (metis rev_rev_ident suffix_to_prefix)
  then have "t = [] \<or> hd t = CHR 0x0A" by (cases t) auto
  with s show ?thesis by blast
qed

lemma scan_first:
  "\<forall>v\<in>set pre. no_address v \<Longrightarrow> py_get net ''IPAddress'' JNull = Inr ip \<Longrightarrow> truthy ip \<Longrightarrow>
   scan_networks (pre @ net # post) = Inr (Some ip)"
proof (induction pre)
  case (Cons v pre)
  then show ?case by (cases v) (auto split: option.splits)
qed simp

lemma resolve_try_logs: "filter is_Log (snd (resolve_try cp)) = []"
  by (auto simp: resolve_try_def Let_def split: sum.splits list.splits)

lemma interrupted_resolve:
  "resolve_container_ip interrupted_control = (Inl (Exn KeyboardInterrupt []), [CheckOutput ps_argv 5])"
  by (simp add: resolve_container_ip_def resolve_try_def interrupted_control_def is_Exception_def)

lemma slow_resolve_try:
  "resolve_try slow_control = (Inl (Exn TimeoutExpired ''timed out after 5 seconds''), [CheckOutput ps_argv 5])"
  by (simp add: resolve_try_def slow_control_def)


text \<open>
  C8. With one or more instances listed, the resolver inspects the first and returns the
  first address found. If \<^verbatim>\<open>docker ps\<close> prints the identifiers \<open>cid\<close>, then any others,
  one a line, the second query is \<^verbatim>\<open>docker inspect cid\<close>; and if in its descriptor
  the networks before one called \<open>name\<close> report no address while \<open>name\<close> reports the
  non-empty string \<open>addr\<close>, the result is \<open>addr\<close>, whatever the networks after it report.
\<close>

theorem resolver_first_found_wins:
  assumes ps: "docker_ps cp = Inr (id_lines (cid # later))"
    and cid: "cid \<noteq> []" "\<forall>c\<in>set cid. \<not> is_space c"
    and insp: "docker_inspect cp cid = Inr info"
    and js: "json_loads cp info = Inr (JArr (JObj descriptor # ds))"
    and ns: "map_of descriptor ''NetworkSettings'' = Some (JObj settings)"
    and nw: "map_of settings ''Networks'' = Some (JObj (pre @ (name, JObj net) # post))"
    and pre: "\<forall>v\<in>set (map snd pre). no_address v"
    and ip: "map_of net ''IPAddress'' = Some (JStr addr)" "addr \<noteq> []"
  shows "resolve_container_ip cp
           = (Inr (Some (JStr addr)),
              [CheckOutput ps_argv 5, CheckOutput (inspect_argv cid) 5])"
proof -
  have il: "id_lines (cid # later) = cid @ CHR 0x0A # id_lines later"
    by (simp add: id_lines_def)
  obtain t where t: "strip (id_lines (cid # later)) = cid @ t" "t = [] \<or> hd t = CHR 0x0A"
    using strip_first[OF cid, of "id_lines later"] il by auto
  have nb: "\<forall>c\<in>set cid. \<not> is_linebreak c" using cid(2) linebreak_space by blast
  obtain ls where ls: "splitlines (cid @ t) = cid # ls"
    using splitlines_first[OF cid(1) nb t(2)] by blast
  have ne: "cid @ t \<noteq> []" using cid(1) by simp
  have sc: "scan_networks (map snd (pre @ (name, JObj net) # post)) = Inr (Some (JStr addr))"
    using scan_first[of "map snd pre" "JObj net" "JStr addr" "map snd post"] pre ip by simp
  have ex: "extract_ip cp info = Inr (Some (JStr addr))"
    using js ns nw sc by (simp add: extract_ip_def)
  have "resolve_try cp = (Inr (Some (JStr addr)),
              [CheckOutput ps_argv 5, CheckOutput (inspect_argv cid) 5])"
    using ps t(1) ls ne insp ex by (simp add: resolve_try_def Let_def)
  then show ?thesis by (simp add: resolve_container_ip_def)
qed


theorem resolver_first_found_wins_witness:
  "docker_ps sample_control = Inr (id_lines [''3f2a'', ''77b0''])
   \<and> resolve_container_ip sample_control
       = (Inr (Some (JStr ''172.17.0.2'')),
          [CheckOutput ps_argv 5, CheckOutput (inspect_argv ''3f2a'') 5])"
proof -
  have ps: "docker_ps sample_control = Inr (id_lines [''3f2a'', ''77b0''])"
    by (simp add: sample_control_def id_lines_def)
  have cid: "''3f2a'' \<noteq> []" "\<forall>c\<in>set ''3f2a''. \<not> is_space c" by (simp_all add: is_space_def)
  have insp: "docker_inspect sample_control ''3f2a'' = Inr ''[{}]''" by (simp add: sample_control_def)
  have js: "json_loads sample_control ''[{}]'' 
     = Inr (JArr (JObj [(''Id'', JStr ''3f2a''),
                 (''NetworkSettings'',
                  JObj [(''Networks'',
                         JObj [(''none'', JObj [(''IPAddress'', JStr [])]),
                               (''bridge'', JObj [(''IPAddress'', JStr ''172.17.0.2'')]),
                               (''mox'', JObj [(''IPAddress'', JStr ''10.0.0.7'')])])])] # []))"
    by (simp add: sample_control_def sample_descriptor_def)
  have ns: "map_of [(''Id'', JStr ''3f2a''),
                 (''NetworkSettings'',
                  JObj [(''Networks'',
                         JObj [(''none'', JObj [(''IPAddress'', JStr [])]),
                               (''bridge'', JObj [(''IPAddress'', JStr ''172.17.0.2'')]),
                               (''mox'', JObj [(''IPAddress'', JStr ''10.0.0.7'')])])])] ''NetworkSettings''
     = Some (JObj [(''Networks'',
                         JObj [(''none'', JObj [(''IPAddress'', JStr [])]),
                               (''bridge'', JObj [(''IPAddress'', JStr ''172.17.0.2'')]),
                               (''mox'', JObj [(''IPAddress'', JStr ''10.0.0.7'')])])])" by simp
  have nw: "map_of [(''Networks'',
                         JObj [(''none'', JObj [(''IPAddress'', JStr [])]),
                               (''bridge'', JObj [(''IPAddress'', JStr ''172.17.0.2'')]),
                               (''mox'', JObj [(''IPAddress'', JStr ''10.0.0.7'')])])] ''Networks''
     = Some (JObj ([(''none'', JObj [(''IPAddress'', JStr [])])]
                   @ (''bridge'', JObj [(''IPAddress'', JStr ''172.17.0.2'')])
                   # [(''mox'', JObj [(''IPAddress'', JStr ''10.0.0.7'')])]))" by simp
  have pre: "\<forall>v\<in>set (map snd [(''none'', JObj [(''IPAddress'', JStr [])])]). no_address v" by simp
  have ip: "map_of [(''IPAddress'', JStr ''172.17.0.2'')] ''IPAddress'' = Some (JStr ''172.17.0.2'')"
      "''172.17.0.2'' \<noteq> []" by simp_all
  from resolver_first_found_wins[OF ps cid insp js ns nw pre ip] ps show ?thesis by simp
qed

lemma resolve_try_found:
  assumes ps: "docker_ps cp = Inr (id_lines (cid # later))"
    and cid: "cid \<noteq> []" "\<forall>c\<in>set cid. \<not> is_space c"
  shows "resolve_try cp =
     (case docker_inspect cp cid of
        Inl e \<Rightarrow> (Inl e, [CheckOutput ps_argv 5, CheckOutput (inspect_argv cid) 5])
      | Inr info \<Rightarrow> (extract_ip cp info, [CheckOutput ps_argv 5, CheckOutput (inspect_argv cid) 5]))"
proof -
  have il: "id_lines (cid # later) = cid @ CHR 0x0A # id_lines later"
    by (simp add: id_lines_def)
  obtain t where t: "strip (id_lines (cid # later)) = cid @ t" "t = [] \<or> hd t = CHR 0x0A"
    using strip_first[OF cid, of "id_lines later"] il by auto
  have nb: "\<forall>c\<in>set cid. \<not> is_linebreak c" using cid(2) linebreak_space by blast
  obtain ls where ls: "splitlines (cid @ t) = cid # ls"
    using splitlines_first[OF cid(1) nb t(2)] by blast
  have ne: "cid @ t \<noteq> []" using cid(1) by simp
  show ?thesis using ps t(1) ls ne cid(1) by (simp add: resolve_try_def Let_def)
qed

lemma resolve_of_try:
  "resolve_try cp = (Inl e, evs) \<Longrightarrow> is_Exception e \<Longrightarrow>
   resolve_container_ip cp = (Inr None, evs @ [Log DEBUG (''resolve_container_ip error: '' @ exn_str e)])"
  "resolve_try cp = (Inr r, evs) \<Longrightarrow> resolve_container_ip cp = (Inr r, evs)"
  by (simp_all add: resolve_container_ip_def)

lemma scan_none: "\<forall>v\<in>set nets. no_address v \<Longrightarrow> scan_networks nets = Inr None"
proof (induction nets)
  case (Cons v nets)
  then show ?case by (cases v) (auto split: option.splits)
qed simp

lemma sample_found:
  "docker_ps (sample_control\<lparr>docker_inspect := f\<rparr>) = Inr (id_lines (''3f2a'' # [''77b0'']))"
  "docker_ps (sample_control\<lparr>json_loads := g\<rparr>) = Inr (id_lines (''3f2a'' # [''77b0'']))"
  "docker_inspect (sample_control\<lparr>json_loads := g\<rparr>) ''3f2a'' = Inr ''[{}]''"
  "''3f2a'' \<noteq> [] \<and> (\<forall>c\<in>set ''3f2a''. \<not> is_space c)"
  by (simp_all add: sample_control_def id_lines_def is_space_def)


text \<open>
  C3. The resolver answers \<open>None\<close> instead of failing, and logs nothing above
  \<^verbatim>\<open>DEBUG\<close>. Nothing under \<^verbatim>\<open>Exception\<close> leaves it. It returns \<open>None\<close>, with one
  \<^verbatim>\<open>DEBUG\<close> event carrying the exception's text, when the first query raises (a timeout,
  a failing command), when the second query raises, when its output does not parse, and
  when the parsed output has another shape (here: an empty list). It returns \<open>None\<close>
  with no log event when no instance matches, and when the first instance's descriptor
  lists only networks without an address. In every run the resolver logs nothing, or one
  \<^verbatim>\<open>DEBUG\<close> event.
\<close>

theorem resolver_swallows_errors:
  "(fst (resolve_container_ip cp) = Inl e \<longrightarrow> \<not> is_Exception e)
   \<and> (docker_ps cp = Inl e1 \<and> is_Exception e1 \<longrightarrow>
        resolve_container_ip cp
          = (Inr None, [CheckOutput ps_argv 5,
                        Log DEBUG (''resolve_container_ip error: '' @ exn_str e1)]))
   \<and> (docker_ps cp = Inr raw \<and> strip raw = [] \<longrightarrow>
        resolve_container_ip cp = (Inr None, [CheckOutput ps_argv 5]))
   \<and> (docker_ps cp = Inr (id_lines (cid # later)) \<and> cid \<noteq> [] \<and> (\<forall>c\<in>set cid. \<not> is_space c) \<longrightarrow>
        (docker_inspect cp cid = Inl e2 \<and> is_Exception e2 \<longrightarrow>
           resolve_container_ip cp
             = (Inr None, [CheckOutput ps_argv 5, CheckOutput (inspect_argv cid) 5,
                           Log DEBUG (''resolve_container_ip error: '' @ exn_str e2)]))
      \<and> (docker_inspect cp cid = Inr info \<longrightarrow>
           (json_loads cp info = Inl e3 \<and> is_Exception e3 \<longrightarrow>
              resolve_container_ip cp
                = (Inr None, [CheckOutput ps_argv 5, CheckOutput (inspect_argv cid) 5,
                              Log DEBUG (''resolve_container_ip error: '' @ exn_str e3)]))
         \<and> (json_loads cp info = Inr (JArr []) \<longrightarrow>
              resolve_container_ip cp
                = (Inr None, [CheckOutput ps_argv 5, CheckOutput (inspect_argv cid) 5,
                              Log DEBUG (''resolve_container_ip error: '' @ ''list index out of range'')]))
         \<and> (json_loads cp info = Inr (JArr (JObj descriptor # ds))
              \<and> map_of descriptor ''NetworkSettings'' = Some (JObj settings)
              \<and> map_of settings ''Networks'' = Some (JObj nets)
              \<and> (\<forall>v\<in>set (map snd nets). no_address v) \<longrightarrow>
              resolve_container_ip cp
                = (Inr None, [CheckOutput ps_argv 5, CheckOutput (inspect_argv cid) 5]))))
   \<and> (filter is_Log (snd (resolve_container_ip cp)) = []
        \<or> (\<exists>m. filter is_Log (snd (resolve_container_ip cp)) = [Log DEBUG m]))"
proof (intro conjI impI)
  assume "fst (resolve_container_ip cp) = Inl e"
  then show "\<not> is_Exception e"
    by (auto simp: resolve_container_ip_def split: prod.splits sum.splits if_splits)
next
  assume "docker_ps cp = Inl e1 \<and> is_Exception e1"
  then show "resolve_container_ip cp
          = (Inr None, [CheckOutput ps_argv 5,
                        Log DEBUG (''resolve_container_ip error: '' @ exn_str e1)])"
    by (simp add: resolve_container_ip_def resolve_try_def)
next
  assume "docker_ps cp = Inr raw \<and> strip raw = []"
  then show "resolve_container_ip cp = (Inr None, [CheckOutput ps_argv 5])"
    by (simp add: resolve_container_ip_def resolve_try_def)
next
  assume f: "docker_ps cp = Inr (id_lines (cid # later)) \<and> cid \<noteq> [] \<and> (\<forall>c\<in>set cid. \<not> is_space c)"
    and q: "docker_inspect cp cid = Inl e2 \<and> is_Exception e2"
  have "resolve_try cp = (Inl e2, [CheckOutput ps_argv 5, CheckOutput (inspect_argv cid) 5])"
    using resolve_try_found[of cp cid later] f q by simp
  then show "resolve_container_ip cp
             = (Inr None, [CheckOutput ps_argv 5, CheckOutput (inspect_argv cid) 5,
                           Log DEBUG (''resolve_container_ip error: '' @ exn_str e2)])"
    using q resolve_of_try(1) by fastforce
next
  assume f: "docker_ps cp = Inr (id_lines (cid # later)) \<and> cid \<noteq> [] \<and> (\<forall>c\<in>set cid. \<not> is_space c)"
    and i: "docker_inspect cp cid = Inr info"
    and q: "json_loads cp info = Inl e3 \<and> is_Exception e3"
  have "resolve_try cp = (Inl e3, [CheckOutput ps_argv 5, CheckOutput (inspect_argv cid) 5])"
    using resolve_try_found[of cp cid later] f i q by (simp add: extract_ip_def)
  then show "resolve_container_ip cp
                = (Inr None, [CheckOutput ps_argv 5, CheckOutput (inspect_argv cid) 5,
                              Log DEBUG (''resolve_container_ip error: '' @ exn_str e3)])"
    using q resolve_of_try(1) by fastforce
next
  assume f: "docker_ps cp = Inr (id_lines (cid # later)) \<and> cid \<noteq> [] \<and> (\<forall>c\<in>set cid. \<not> is_space c)"
    and i: "docker_inspect cp cid = Inr info"
    and q: "json_loads cp info = Inr (JArr [])"
  have "resolve_try cp = (Inl (Exn IndexError ''list index out of range''),
                          [CheckOutput ps_argv 5, CheckOutput (inspect_argv cid) 5])"
    using resolve_try_found[of cp cid later] f i q by (simp add: extract_ip_def)
  from resolve_of_try(1)[OF this] show "resolve_container_ip cp
                = (Inr None, [CheckOutput ps_argv 5, CheckOutput (inspect_argv cid) 5,
                              Log DEBUG (''resolve_container_ip error: '' @ ''list index out of range'')])"
    by (simp add: is_Exception_def)
next
  assume f: "docker_ps cp = Inr (id_lines (cid # later)) \<and> cid \<noteq> [] \<and> (\<forall>c\<in>set cid. \<not> is_space c)"
    and i: "docker_inspect cp cid = Inr info"
    and q: "json_loads cp info = Inr (JArr (JObj descriptor # ds))
              \<and> map_of descriptor ''NetworkSettings'' = Some (JObj settings)
              \<and> map_of settings ''Networks'' = Some (JObj nets)
              \<and> (\<forall>v\<in>set (map snd nets). no_address v)"
  have "scan_networks (map snd nets) = Inr None" using q scan_none by blast
  then have "resolve_try cp = (Inr None, [CheckOutput ps_argv 5, CheckOutput (inspect_argv cid) 5])"
    using resolve_try_found[of cp cid later] f i q by (simp add: extract_ip_def)
  then show "resolve_container_ip cp
                = (Inr None, [CheckOutput ps_argv 5, CheckOutput (inspect_argv cid) 5])"
    by (rule resolve_of_try(2))
next
  show "filter is_Log (snd (resolve_container_ip cp)) = []
        \<or> (\<exists>m. filter is_Log (snd (resolve_container_ip cp)) = [Log DEBUG m])"
    using resolve_try_logs[of cp]
    by (cases "resolve_try cp") (auto simp: resolve_container_ip_def split: sum.splits)
qed

theorem resolver_swallows_errors_witness:
  "fst (resolve_container_ip interrupted_control) = Inl (Exn KeyboardInterrupt [])
   \<and> \<not> is_Exception (Exn KeyboardInterrupt [])
   \<and> docker_ps slow_control = Inl (Exn TimeoutExpired ''timed out after 5 seconds'')
   \<and> resolve_container_ip slow_control
       = (Inr None, [CheckOutput ps_argv 5,
                     Log DEBUG (''resolve_container_ip error: '' @ ''timed out after 5 seconds'')])
   \<and> docker_ps absent_control = Inr [] \<and> strip [] = []
   \<and> resolve_container_ip absent_control = (Inr None, [CheckOutput ps_argv 5])
   \<and> docker_inspect failing_inspect_control ''3f2a''
       = Inl (Exn TimeoutExpired ''timed out after 5 seconds'')
   \<and> resolve_container_ip failing_inspect_control
       = (Inr None, [CheckOutput ps_argv 5, CheckOutput (inspect_argv ''3f2a'') 5,
                     Log DEBUG (''resolve_container_ip error: '' @ ''timed out after 5 seconds'')])
   \<and> json_loads malformed_control ''[{}]''
       = Inl (Exn JSONDecodeError ''Expecting value: line 1 column 1 (char 0)'')
   \<and> resolve_container_ip malformed_control
       = (Inr None, [CheckOutput ps_argv 5, CheckOutput (inspect_argv ''3f2a'') 5,
                     Log DEBUG (''resolve_container_ip error: ''
                                  @ ''Expecting value: line 1 column 1 (char 0)'')])
   \<and> json_loads empty_control ''[{}]'' = Inr (JArr [])
   \<and> resolve_container_ip empty_control
       = (Inr None, [CheckOutput ps_argv 5, CheckOutput (inspect_argv ''3f2a'') 5,
                     Log DEBUG (''resolve_container_ip error: '' @ ''list index out of range'')])
   \<and> no_address (JObj [(''IPAddress'', JStr [])]) \<and> no_address (JObj [])
   \<and> resolve_container_ip unaddressed_control
       = (Inr None, [CheckOutput ps_argv 5, CheckOutput (inspect_argv ''3f2a'') 5])"
proof -
  let ?t = "Exn TimeoutExpired ''timed out after 5 seconds''"
  let ?j = "Exn JSONDecodeError ''Expecting value: line 1 column 1 (char 0)''"
  have a: "fst (resolve_container_ip interrupted_control) = Inl (Exn KeyboardInterrupt [])"
    by (simp add: interrupted_resolve)
  from resolver_swallows_errors[of interrupted_control "Exn KeyboardInterrupt []"] a
  have a': "\<not> is_Exception (Exn KeyboardInterrupt [])" by simp
  have b: "docker_ps slow_control = Inl ?t \<and> is_Exception ?t"
    by (simp add: slow_control_def is_Exception_def)
  from resolver_swallows_errors[of slow_control _ ?t] b
  have b': "resolve_container_ip slow_control
       = (Inr None, [CheckOutput ps_argv 5,
                     Log DEBUG (''resolve_container_ip error: '' @ ''timed out after 5 seconds'')])"
    by simp
  have c: "docker_ps absent_control = Inr [] \<and> strip [] = []"
    by (simp add: absent_control_def strip_def)
  from resolver_swallows_errors[of absent_control _ _ "[]"] c
  have c': "resolve_container_ip absent_control = (Inr None, [CheckOutput ps_argv 5])" by simp
  have d: "docker_inspect failing_inspect_control ''3f2a'' = Inl ?t \<and> is_Exception ?t"
    by (simp add: failing_inspect_control_def is_Exception_def)
  from resolver_swallows_errors[of failing_inspect_control _ _ _ "''3f2a''" "[''77b0'']" ?t] d sample_found
  have d': "resolve_container_ip failing_inspect_control
       = (Inr None, [CheckOutput ps_argv 5, CheckOutput (inspect_argv ''3f2a'') 5,
                     Log DEBUG (''resolve_container_ip error: '' @ ''timed out after 5 seconds'')])"
    by (simp add: failing_inspect_control_def)
  have f: "json_loads malformed_control ''[{}]'' = Inl ?j \<and> is_Exception ?j"
    by (simp add: malformed_control_def is_Exception_def)
  from resolver_swallows_errors[of malformed_control _ _ _ "''3f2a''" "[''77b0'']" _ "''[{}]''" ?j] f sample_found
  have f': "resolve_container_ip malformed_control
       = (Inr None, [CheckOutput ps_argv 5, CheckOutput (inspect_argv ''3f2a'') 5,
                     Log DEBUG (''resolve_container_ip error: ''
                                  @ ''Expecting value: line 1 column 1 (char 0)'')])"
    by (simp add: malformed_control_def)
  have g: "json_loads empty_control ''[{}]'' = Inr (JArr [])"
    by (simp add: empty_control_def)
  from resolver_swallows_errors[of empty_control _ _ _ "''3f2a''" "[''77b0'']" _ "''[{}]''"] g sample_found
  have g': "resolve_container_ip empty_control
       = (Inr None, [CheckOutput ps_argv 5, CheckOutput (inspect_argv ''3f2a'') 5,
                     Log DEBUG (''resolve_container_ip error: '' @ ''list index out of range'')])"
    by (simp add: empty_control_def)
  have h: "json_loads unaddressed_control ''[{}]''
             = Inr (JArr (JObj [(''NetworkSettings'',
                          JObj [(''Networks'',
                                 JObj [(''none'', JObj [(''IPAddress'', JStr [])]),
                                       (''host'', JObj [])])])] # []))"
    by (simp add: unaddressed_control_def)
  have h2: "\<forall>v\<in>set (map snd [(''none'', JObj [(''IPAddress'', JStr [])]), (''host'', JObj [])]).
         no_address v" by simp
  from resolver_swallows_errors[of unaddressed_control _ _ _ "''3f2a''" "[''77b0'']" _ "''[{}]''" _
            "[(''NetworkSettings'', JObj [(''Networks'',
                                 JObj [(''none'', JObj [(''IPAddress'', JStr [])]),
                                       (''host'', JObj [])])])]" "[]"
            "[(''Networks'', JObj [(''none'', JObj [(''IPAddress'', JStr [])]),
                                       (''host'', JObj [])])]"
            "[(''none'', JObj [(''IPAddress'', JStr [])]), (''host'', JObj [])]"] h h2 sample_found
  have h': "resolve_container_ip unaddressed_control
       = (Inr None, [CheckOutput ps_argv 5, CheckOutput (inspect_argv ''3f2a'') 5])"
    by (simp add: unaddressed_control_def)
  have h3: "no_address (JObj [(''IPAddress'', JStr [])]) \<and> no_address (JObj [])" by simp
  from a a' b b' c c' d d' f f' g g' h3 h' show ?thesis by simp
qed

text \<open>The silent case: with no matching instance (\<^verbatim>\<open>docker ps\<close> prints nothing) the
  resolver returns through \<^verbatim>\<open>if not out: return None\<close>, and its trace has no log event;
  it is the caller that reports an absent backend.\<close>

lemma resolver_silent_when_no_instance:
  "docker_ps absent_control = Inr []
   \<and> fst (resolve_container_ip absent_control) = Inr None
   \<and> filter is_Log (snd (resolve_container_ip absent_control)) = []"
  by (simp add: absent_resolve) (simp add: absent_control_def)

section \<open>Properties of the entry point\<close>

lemma py_int_error: "py_int env a = Inl e \<Longrightarrow> exn_cls e = ValueError"
  by (auto simp: py_int_def Let_def invalid_literal_def exceeds_limit_def
      split: prod.splits if_splits)

lemma convert_all_error:
  "a \<in> set args \<Longrightarrow> py_int env a = Inl e \<Longrightarrow>
   \<exists>b\<in>set args. \<exists>e'. py_int env b = Inl e' \<and> convert_all env args = Inl e'"
proof (induction args)
  case (Cons x xs)
  show ?case
  proof (cases "py_int env x")
    case (Inl e0)
    then show ?thesis by auto
  next
    case (Inr q)
    with Cons have "a \<in> set xs" by auto
    with Cons obtain b e' where "b \<in> set xs" "py_int env b = Inl e'" "convert_all env xs = Inl e'"
      by blast
    then show ?thesis using Inr by auto
  qed
qed simp

lemma convert_all_member:
  "convert_all env args = Inr ports \<Longrightarrow> a \<in> set args \<Longrightarrow> py_int env a = Inr p \<Longrightarrow> p \<in> set ports"
  by (induction args arbitrary: ports) (auto split: sum.splits)

lemma other_survives:
  assumes "Other \<in> set toks"
  shows "Other \<in> set (dropWhile in_run (snd (unsign (dropWhile (\<lambda>t. t = Space) toks))))"
proof -
  have 1: "Other \<in> set (dropWhile (\<lambda>t. t = Space) toks)"
    using assms by (induction toks) auto
  have 2: "\<And>xs. Other \<in> set xs \<Longrightarrow> Other \<in> set (snd (unsign xs))"
    by (auto simp: unsign_def split: list.splits sym.splits)
  have 3: "\<And>xs. Other \<in> set xs \<Longrightarrow> Other \<in> set (dropWhile in_run xs)"
  proof -
    fix xs :: "sym list" assume "Other \<in> set xs"
    then show "Other \<in> set (dropWhile in_run xs)" by (induction xs) auto
  qed
  show ?thesis using 1 2 3 by blast
qed

lemma int_rejects_other:
  assumes "c \<in> set a" "classify env c = Other"
  shows "\<exists>e. py_int env a = Inl e"
proof -
  have "Other \<in> set (map (classify env) a)" using assms by force
  from other_survives[OF this]
  have "\<not> list_all (\<lambda>t. t = Space)
            (dropWhile in_run (snd (unsign (dropWhile (\<lambda>t. t = Space) (map (classify env) a)))))"
    by (auto simp: list_all_iff)
  then show ?thesis
    by (cases "unsign (dropWhile (\<lambda>t. t = Space) (map (classify env) a))")
       (auto simp: py_int_def Let_def)
qed

lemmas int_defs = py_int_def classify_def unsign_def well_formed_def decimal_value_def ascii_def
  sample_env_def Let_def

lemma py_int_8080: "py_int sample_env (ascii ''8080'') = Inr 8080"
  by (simp add: int_defs)

lemma py_int_9000: "py_int sample_env (ascii ''9000'') = Inr 9000"
  by (simp add: int_defs)

lemma py_int_bad: "\<exists>e. py_int sample_env (ascii ''9o01'') = Inl e"
  by (simp add: int_defs)

lemma py_int_spaced: "py_int sample_env (ascii '' 9000'') = Inr 9000"
  by (simp add: int_defs)

lemma py_int_decorated: "py_int sample_env (ascii '' +9_000 '') = Inr 9000"
  by (simp add: int_defs)

lemma py_int_separator: "\<exists>e. py_int sample_env (28 # ascii ''9000'') = Inl e"
  by (simp add: int_defs)

lemma py_int_arabic_indic: "py_int sample_env [0x669, 0x660, 0x660, 0x660] = Inr 9000"
  by (simp add: int_defs)

lemma py_int_nbsp: "py_int sample_env (0xA0 # ascii ''9000'') = Inr 9000"
  by (simp add: int_defs)

lemma start_forwarder_starts:
  "filter is_StartServer (snd (start_forwarder env p)) = [StartServer ''0.0.0.0'' p]"
  by (simp add: start_forwarder_def split: option.splits)

lemma forwarders_start:
  "filter is_StartServer (concat (map (\<lambda>p. snd (start_forwarder env p)) ports))
     = map (StartServer ''0.0.0.0'') ports"
  by (induction ports) (simp_all add: start_forwarder_starts)

lemma resolve_try_no_server: "filter is_StartServer (snd (resolve_try cp)) = []"
  by (auto simp: resolve_try_def Let_def split: sum.splits list.splits)

lemma resolve_no_server: "filter is_StartServer (snd (resolve_container_ip cp)) = []"
  using resolve_try_no_server[of cp]
  by (auto simp: resolve_container_ip_def split: prod.splits sum.splits)

lemma found_event_log: "\<exists>l m. found_event env r = Log l m"
  by (auto simp: found_event_def split: option.splits)


lemma sample_main:
  "fst (main sample_env [9000]) = NeverReturns
   \<and> filter is_StartServer (snd (main sample_env [9000])) = [StartServer ''0.0.0.0'' 9000]"
  by (simp add: main_def sample_env_def sample_resolve start_forwarder_def found_event_def)


text \<open>
  C7. If any argument converts to an integer outside 9000..9099, the process ends with
  exit status 1 and its trace holds log events only: no listener was started, no
  subprocess was run and no connection was opened. (The arguments may also hold one that
  does not convert; the status is 1 then as well.)
\<close>

theorem out_of_range_port_aborts:
  assumes "a \<in> set args" and "py_int env a = Inr p" and "\<not> in_range p"
  shows "exit_status (fst (script env args)) = Some 1
     \<and> filter (\<lambda>ev. \<not> is_Log ev) (snd (script env args)) = []"
proof (cases "convert_all env args")
  case (Inl e)
  have ne: "args \<noteq> []" using assms(1) by auto
  then show ?thesis using Inl by (simp add: script_def)
next
  case (Inr ports)
  have ne: "args \<noteq> []" using assms(1) by auto
  have "p \<in> set ports" using convert_all_member[OF Inr assms(1,2)] .
  then have "find (\<lambda>p. \<not> in_range p) ports \<noteq> None" using assms(3) by (auto simp: find_None_iff)
  then obtain q where "find (\<lambda>p. \<not> in_range p) ports = Some q" by auto
  then show ?thesis using Inr ne by (simp add: script_def)
qed


theorem out_of_range_port_aborts_witness:
  "ascii ''8080'' \<in> set [ascii ''9000'', ascii ''8080'']
   \<and> py_int sample_env (ascii ''8080'') = Inr 8080 \<and> \<not> in_range 8080
   \<and> exit_status (fst (script sample_env [ascii ''9000'', ascii ''8080''])) = Some 1
   \<and> filter (\<lambda>ev. \<not> is_Log ev) (snd (script sample_env [ascii ''9000'', ascii ''8080''])) = []"
proof -
  have m: "ascii ''8080'' \<in> set [ascii ''9000'', ascii ''8080'']" by simp
  have r: "\<not> in_range 8080" by (simp add: in_range_def)
  from out_of_range_port_aborts[OF m py_int_8080 r] m py_int_8080 r
  show ?thesis by simp
qed

text \<open>
  C9, as the code has it. The arguments that end the process are those that \<^verbatim>\<open>int\<close>
  rejects. If any argument is one, the list comprehension raises \<^verbatim>\<open>ValueError\<close> for the
  first such argument; nothing catches it, so the process ends with status 1 and an empty
  trace: the range check has logged nothing, even for an out-of-range port earlier in the
  list, and no listener was started. An argument with a character that is neither
  whitespace, a sign, an underscore nor a decimal digit is always one that \<^verbatim>\<open>int\<close>
  rejects.
\<close>

theorem unconvertible_argument_raises:
  "(a \<in> set args \<and> py_int env a = Inl e \<longrightarrow>
      (\<exists>b\<in>set args. \<exists>e'. py_int env b = Inl e' \<and> script env args = (Uncaught e', [])
          \<and> exn_cls e' = ValueError)
      \<and> exit_status (fst (script env args)) = Some 1)
   \<and> (c \<in> set a' \<and> classify env c = Other \<longrightarrow> (\<exists>e. py_int env a' = Inl e))"
proof (intro conjI impI)
  assume h: "a \<in> set args \<and> py_int env a = Inl e"
  then obtain b e' where b: "b \<in> set args" "py_int env b = Inl e'" "convert_all env args = Inl e'"
    using convert_all_error by blast
  have ne: "args \<noteq> []" using h by auto
  have s: "script env args = (Uncaught e', [])" using b(3) ne by (simp add: script_def)
  show "\<exists>b\<in>set args. \<exists>e'. py_int env b = Inl e' \<and> script env args = (Uncaught e', [])
          \<and> exn_cls e' = ValueError"
    using b s py_int_error by blast
  show "exit_status (fst (script env args)) = Some 1" using s by simp
next
  assume "c \<in> set a' \<and> classify env c = Other"
  then show "\<exists>e. py_int env a' = Inl e" using int_rejects_other by blast
qed


theorem unconvertible_argument_raises_witness:
  "ascii ''9o01'' \<in> set [ascii ''8080'', ascii ''9o01'']
   \<and> (\<exists>e. py_int sample_env (ascii ''9o01'') = Inl e)
   \<and> exit_status (fst (script sample_env [ascii ''8080'', ascii ''9o01''])) = Some 1
   \<and> snd (script sample_env [ascii ''8080'', ascii ''9o01'']) = []
   \<and> 111 \<in> set (ascii ''9o01'') \<and> classify sample_env 111 = Other"
proof -
  have m: "ascii ''9o01'' \<in> set [ascii ''8080'', ascii ''9o01'']" by simp
  obtain e where e: "py_int sample_env (ascii ''9o01'') = Inl e" using py_int_bad by blast
  have h: "ascii ''9o01'' \<in> set [ascii ''8080'', ascii ''9o01'']
           \<and> py_int sample_env (ascii ''9o01'') = Inl e" using m e by simp
  note t = unconvertible_argument_raises[THEN conjunct1, THEN mp, OF h]
  from t obtain e' where "script sample_env [ascii ''8080'', ascii ''9o01''] = (Uncaught e', [])"
    by blast
  then have s: "snd (script sample_env [ascii ''8080'', ascii ''9o01'']) = []" by simp
  have x: "exit_status (fst (script sample_env [ascii ''8080'', ascii ''9o01''])) = Some 1"
    using t by blast
  have o: "111 \<in> set (ascii ''9o01'') \<and> classify sample_env 111 = Other"
    by (simp add: ascii_def classify_def)
  have "\<exists>e. py_int sample_env (ascii ''9o01'') = Inl e"
    by (rule unconvertible_argument_raises[THEN conjunct2, THEN mp, OF o])
  with m s x o show ?thesis by simp
qed


text \<open>
  C9 as stated has the process end for every argument that is not a decimal integer
  literal. The argument \<^verbatim>\<open>" 9000"\<close>, with a leading space, is not one; \<^verbatim>\<open>int\<close>
  converts it to 9000, the range check passes and the listener on port 9000 is started.
\<close>

theorem spaced_argument_is_served:
  "\<not> decimal_integer_literal (ascii '' 9000'')
   \<and> py_int sample_env (ascii '' 9000'') = Inr 9000
   \<and> fst (script sample_env [ascii '' 9000'']) = Serving
   \<and> exit_status (fst (script sample_env [ascii '' 9000''])) = None
   \<and> filter is_StartServer (snd (script sample_env [ascii '' 9000'']))
       = [StartServer ''0.0.0.0'' 9000]"
proof -
  have l: "\<not> decimal_integer_literal (ascii '' 9000'')"
    by (simp add: decimal_integer_literal_def ascii_def)
  have s: "script sample_env [ascii '' 9000''] = run_main sample_env [9000]"
    by (simp add: script_def py_int_spaced in_range_def)
  have g: "sigint sample_env = False" by (simp add: sample_env_def)
  have r: "fst (run_main sample_env [9000]) = Serving
           \<and> snd (run_main sample_env [9000]) = snd (main sample_env [9000])"
    using sample_main g by (cases "main sample_env [9000]") (simp add: run_main_def)
  show ?thesis using l s r sample_main py_int_spaced by simp
qed


text \<open>
  C10. The resolution at startup only chooses a log event. Whenever it returns, with an
  address or with \<open>None\<close>, \<^verbatim>\<open>main\<close> logs one event for it and then starts a listener
  on every port of its list, in order, on \<^verbatim>\<open>0.0.0.0\<close>; what each listener does and what
  \<^verbatim>\<open>main\<close> returns do not depend on the control plane.
\<close>

theorem startup_resolution_is_informational:
  assumes "fst (resolve_container_ip (control env)) = Inr r"
  shows "main env ports
           = (gather_all (map (\<lambda>p. fst (start_forwarder env p)) ports),
              Log INFO (''Fraktalia Port Forwarder starting '' @ dash @ '' ports: '' @ str_ports ports)
                # snd (resolve_container_ip (control env))
                @ [found_event env r]
                @ concat (map (\<lambda>p. snd (start_forwarder env p)) ports))
     \<and> (\<exists>l m. found_event env r = Log l m)
     \<and> filter is_StartServer (snd (main env ports)) = map (StartServer ''0.0.0.0'') ports
     \<and> (\<forall>p. start_forwarder (env\<lparr>control := cp\<rparr>) p = start_forwarder env p)"
proof -
  have m: "main env ports
           = (gather_all (map (\<lambda>p. fst (start_forwarder env p)) ports),
              Log INFO (''Fraktalia Port Forwarder starting '' @ dash @ '' ports: '' @ str_ports ports)
                # snd (resolve_container_ip (control env))
                @ [found_event env r]
                @ concat (map (\<lambda>p. snd (start_forwarder env p)) ports))"
    using assms by (cases "resolve_container_ip (control env)") (simp add: main_def)
  obtain l msg where f: "found_event env r = Log l msg" using found_event_log by blast
  have s: "filter is_StartServer (snd (main env ports)) = map (StartServer ''0.0.0.0'') ports"
    unfolding m by (simp add: resolve_no_server forwarders_start f)
  have i: "\<forall>p. start_forwarder (env\<lparr>control := cp\<rparr>) p = start_forwarder env p"
    by (simp add: start_forwarder_def)
  from m f s i show ?thesis by blast
qed

theorem startup_resolution_is_informational_witness:
  "fst (resolve_container_ip (control absent_env)) = Inr None
   \<and> filter is_StartServer (snd (main absent_env [9000, 9001]))
       = [StartServer ''0.0.0.0'' 9000, StartServer ''0.0.0.0'' 9001]"
proof -
  have r: "fst (resolve_container_ip (control absent_env)) = Inr None"
    by (simp add: absent_env_def absent_resolve)
  from startup_resolution_is_informational[OF r, of "[9000, 9001]" sample_control]
  have "filter is_StartServer (snd (main absent_env [9000, 9001]))
          = map (StartServer ''0.0.0.0'') [9000, 9001]" by blast
  with r show ?thesis by simp
qed

end
